theory Spec2Isabelle
  imports Main "HOL-Library.Sublist"
begin

section \<open>Python values used by \<open>cps/gdriveutils.py\<close>\<close>

text \<open>
  Exceptions are values: a function that can raise returns \<open>exn + 'a\<close>, with \<open>Inl\<close> the
  exception raised and \<open>Inr\<close> the value returned. \<open>ApiError\<close> stands for whatever the
  Google Drive client, the HTTP transport or the database engine raises, \<open>IntegrityError\<close>
  for the violation of a uniqueness constraint, which SQLAlchemy raises at the flush.
\<close>

datatype exn = IndexError | ValueError | TypeError | ApiError string | IntegrityError

subsection \<open>Strings\<close>

text \<open>
  \<open>apos\<close> is the one-character string holding the apostrophe and \<open>backslash\<close> the one
  holding the backslash; \<open>split_py\<close>, \<open>join_py\<close>, \<open>replace_py\<close> and \<open>contains\<close> are
  \<open>str.split\<close>, \<open>str.join\<close>, \<open>str.replace\<close> and the substring test \<open>in\<close>;
  \<open>str_of\<close> is what \<open>'%s' %\<close> prints for an identifier that may be \<open>None\<close>, and
  \<open>str_int\<close> what it prints for an integer. \<open>truthy\<close> is Python's truth value of a string
  that may be \<open>None\<close>.
\<close>

definition apos :: string where
  "apos = [CHR 0x27]"

definition backslash :: string where
  "backslash = [CHR 0x5C]"

fun split_py :: "char \<Rightarrow> string \<Rightarrow> string list" where
  "split_py sep [] = [[]]"
| "split_py sep (c # cs) =
     (if c = sep then [] # split_py sep cs
      else (case split_py sep cs of [] \<Rightarrow> [[c]] | x # xs \<Rightarrow> (c # x) # xs))"

fun join_py :: "string \<Rightarrow> string list \<Rightarrow> string" where
  "join_py sep [] = []"
| "join_py sep [x] = x"
| "join_py sep (x # y # ys) = x @ sep @ join_py sep (y # ys)"

function replace_py :: "string \<Rightarrow> string \<Rightarrow> string \<Rightarrow> string" where
  "replace_py s old new =
     (if old = [] then new @ concat (map (\<lambda>c. c # new) s)
      else if s = [] then []
      else if prefix old s then new @ replace_py (drop (length old) s) old new
      else hd s # replace_py (tl s) old new)"
  by pat_completeness auto
termination
  by (relation "measure (\<lambda>(s, old, new). length s)") auto

fun contains :: "string \<Rightarrow> string \<Rightarrow> bool" where
  "contains pat [] = (pat = [])"
| "contains pat (c # cs) = (prefix pat (c # cs) \<or> contains pat cs)"

definition str_of :: "string option \<Rightarrow> string" where
  "str_of v = (case v of None \<Rightarrow> ''None'' | Some s \<Rightarrow> s)"

definition first :: "'a list \<Rightarrow> 'a option" where
  "first xs = (case xs of [] \<Rightarrow> None | x # _ \<Rightarrow> Some x)"

definition enumerate_py :: "'a list \<Rightarrow> (nat \<times> 'a) list" where
  "enumerate_py xs = zip [0..<length xs] xs"

definition truthy :: "string option \<Rightarrow> bool" where
  "truthy v = (case v of None \<Rightarrow> False | Some s \<Rightarrow> s \<noteq> [])"

function digits :: "nat \<Rightarrow> string" where
  "digits n =
     (if n < 10 then [''0123456789'' ! n] else digits (n div 10) @ [''0123456789'' ! (n mod 10)])"
  by pat_completeness auto
termination
  by (relation "measure id") auto

definition str_int :: "int \<Rightarrow> string" where
  "str_int i = (if i < 0 then ''-'' @ digits (nat (- i)) else digits (nat i))"

subsection \<open>\<open>range\<close> and the chunk splitter \<open>partial\<close>\<close>

text \<open>
  \<open>range_py p stop step\<close> lists what \<open>range(p, stop, step)\<close> yields for a non-zero step;
  Python raises \<open>ValueError\<close> for a zero step, which \<open>partial\<close> reports. The loop of
  \<open>partial\<close> appends one \<open>[p, last]\<close> per value of the range.
\<close>

function range_py :: "int \<Rightarrow> int \<Rightarrow> int \<Rightarrow> int list" where
  "range_py p stop step =
     (if (0 < step \<and> p < stop) \<or> (step < 0 \<and> stop < p)
      then p # range_py (p + step) stop step else [])"
  by pat_completeness auto
termination
  by (relation "measure (\<lambda>(p, stop, step). nat (if 0 < step then stop - p else p - stop))") auto

fun partial_loop :: "int \<Rightarrow> int \<Rightarrow> int list \<Rightarrow> int list list \<Rightarrow> int list list" where
  "partial_loop total_byte_len part_size_limit [] s = s"
| "partial_loop total_byte_len part_size_limit (p # ps) s =
     (let last = min (total_byte_len - 1) (p + part_size_limit - 1)
      in partial_loop total_byte_len part_size_limit ps (s @ [[p, last]]))"

definition partial :: "int \<Rightarrow> int \<Rightarrow> exn + int list list" where
  "partial total_byte_len part_size_limit =
     (if part_size_limit = 0 then Inl ValueError
      else Inr (partial_loop total_byte_len part_size_limit
                  (range_py 0 total_byte_len part_size_limit) []))"

section \<open>The local store and the remote drive\<close>

text \<open>
  The two tables of \<open>gdrive.db\<close> are lists of rows in primary-key order. \<open>gdrive_id\<close> is
  nullable, so it is an option. The SQLAlchemy session is the state \<open>world\<close>:
  \<open>gdrive_ids\<close> and \<open>permissions_added\<close> are what a query in the session sees (pending
  rows included, as autoflush makes them visible), the two \<open>committed\<close> fields what the last
  \<open>session.commit()\<close> wrote. Of the uniqueness constraint on \<open>(gdrive_id, path)\<close> that the
  class declares, the check is modelled where the module can violate it, in
  \<open>updateDatabaseOnEdit\<close>; every insert of the module is of a path that has no row.
  \<open>log\<close> collects the messages given to \<open>logger\<close>,
  \<open>list_queries\<close> the query strings sent to \<open>drive.ListFile\<close> in order, and
  \<open>permission_calls\<close> the file ids on which \<open>InsertPermission\<close> was called.

  The drive is a parameter: \<open>ListFile drive q\<close> is what \<open>drive.ListFile({'q': q}).GetList()\<close>
  returns or raises, \<open>GetPermissions\<close> and \<open>InsertPermission\<close> say whether these calls on
  the file with the given id raise. A file is the part of its metadata the module reads;
  \<open>fileSize\<close> is \<open>None\<close> where \<open>int(df.metadata.get('fileSize'))\<close> raises.
  \<open>getDrive\<close>, which refreshes the access token, is left out.
\<close>

record gfile =
  file_id :: string
  webContentLink :: "string option"
  fileSize :: "int option"
  downloadUrl :: "string option"

record GdriveId =
  id_col :: nat
  gdrive_id :: "string option"
  path :: string

record PermissionAdded =
  perm_id_col :: nat
  perm_gdrive_id :: "string option"

record drive =
  ListFile :: "string \<Rightarrow> exn + gfile list"
  GetPermissions :: "string \<Rightarrow> exn option"
  InsertPermission :: "string \<Rightarrow> exn option"

record world =
  gdrive_ids :: "GdriveId list"
  permissions_added :: "PermissionAdded list"
  committed_gdrive_ids :: "GdriveId list"
  committed_permissions_added :: "PermissionAdded list"
  log :: "string list"
  list_queries :: "string list"
  permission_calls :: "string list"

text \<open>
  \<open>first\<close> above is \<open>Query.first()\<close>. \<open>session.merge\<close> and \<open>session.add\<close> of an
  object without primary key insert a row, whose key SQLite sets to one more than the
  largest key in the table.
\<close>

definition next_id :: "nat list \<Rightarrow> nat" where
  "next_id ids = Suc (foldr max ids 0)"

definition merge_GdriveId :: "string option \<Rightarrow> string \<Rightarrow> world \<Rightarrow> world" where
  "merge_GdriveId gid p w =
     w\<lparr>gdrive_ids := gdrive_ids w @
        [\<lparr>id_col = next_id (map id_col (gdrive_ids w)), gdrive_id = gid, path = p\<rparr>]\<rparr>"

definition add_PermissionAdded :: "string option \<Rightarrow> world \<Rightarrow> world" where
  "add_PermissionAdded gid w =
     w\<lparr>permissions_added := permissions_added w @
        [\<lparr>perm_id_col = next_id (map perm_id_col (permissions_added w)), perm_gdrive_id = gid\<rparr>]\<rparr>"

definition commit :: "world \<Rightarrow> world" where
  "commit w = w\<lparr>committed_gdrive_ids := gdrive_ids w,
                committed_permissions_added := permissions_added w\<rparr>"

section \<open>Resolving folders\<close>

text \<open>
  \<open>folder_query\<close> and \<open>file_query\<close> are the query strings that \<open>getFolderInFolder\<close> and
  \<open>getFile\<close> build. The parent is an option since \<open>getFolderId\<close> passes on whatever
  \<open>getEbooksFolderId\<close> returned, \<open>None\<close> included, and \<open>'%s'\<close> then prints \<open>None\<close>.
  \<open>config_google_drive_folder\<close> is a parameter; an unset value counts as the empty string,
  which the only test on it (\<open>if folderName\<close>) treats alike.
\<close>

definition folder_query :: "string option \<Rightarrow> string \<Rightarrow> string" where
  "folder_query parentId folderName =
     (let query = (if folderName \<noteq> []
                   then ''title = '' @ apos @ replace_py folderName apos (backslash @ apos) @ apos @ '' and ''
                   else [])
      in query @ apos @ str_of parentId @ apos @ '' in parents and mimeType = '' @ apos @
         ''application/vnd.google-apps.folder'' @ apos @ '' and trashed = false'')"

definition getFolderInFolder ::
  "string option \<Rightarrow> string \<Rightarrow> drive \<Rightarrow> world \<Rightarrow> (exn + gfile option) \<times> world" where
  "getFolderInFolder parentId folderName drive w =
     (let folder = folder_query parentId folderName;
          w' = w\<lparr>list_queries := list_queries w @ [folder]\<rparr>
      in case ListFile drive folder of
           Inl e \<Rightarrow> (Inl e, w')
         | Inr fileList \<Rightarrow>
             (if length fileList = 0 then (Inr None, w')
              else (Inr (Some (fileList ! 0)), w')))"

definition getEbooksFolder :: "string \<Rightarrow> drive \<Rightarrow> world \<Rightarrow> (exn + gfile option) \<times> world" where
  "getEbooksFolder config_google_drive_folder drive w =
     getFolderInFolder (Some ''root'') config_google_drive_folder drive w"

text \<open>
  \<open>getEbooksFolderId\<close>: the \<open>try\<close> covers the remote call and the subscript \<open>['id']\<close>,
  which raises \<open>TypeError\<close> on \<open>None\<close>; both ways the error is logged and the row is
  merged with no \<open>gdrive_id\<close>. The branch ends with a bare \<open>return\<close>.
\<close>

definition getEbooksFolderId :: "string \<Rightarrow> drive \<Rightarrow> world \<Rightarrow> (exn + string option) \<times> world" where
  "getEbooksFolderId config_google_drive_folder drive w =
     (case first (filter (\<lambda>r. path r = ''/'') (gdrive_ids w)) of
        Some storedPathName \<Rightarrow> (Inr (gdrive_id storedPathName), w)
      | None \<Rightarrow>
          (let (gid, w1) =
                 (case getEbooksFolder config_google_drive_folder drive w of
                    (Inr (Some f), w') \<Rightarrow> (Some (file_id f), w')
                  | (Inr None, w') \<Rightarrow>
                      (None, w'\<lparr>log := log w' @ [''Error gDrive, root ID not found'']\<rparr>)
                  | (Inl e, w') \<Rightarrow>
                      (None, w'\<lparr>log := log w' @ [''Error gDrive, root ID not found'']\<rparr>))
           in (Inr None, commit (merge_GdriveId gid ''/'' w1))))"

text \<open>
  The \<open>for\<close> loop of \<open>getFolderId\<close> over \<open>enumerate(s)\<close>; \<open>break\<close> returns at once.
  \<open>currentPath[-1]\<close> raises on an empty string.
\<close>

fun getFolderId_loop ::
  "string list \<Rightarrow> drive \<Rightarrow> (nat \<times> string) list \<Rightarrow> string option \<Rightarrow> bool \<Rightarrow> world
     \<Rightarrow> (exn + string option \<times> bool) \<times> world" where
  "getFolderId_loop s drive [] currentFolderId dbChange w = (Inr (currentFolderId, dbChange), w)"
| "getFolderId_loop s drive ((i, x) # rest) currentFolderId dbChange w =
     (if length x > 0 then
        (let joined = join_py ''/'' (take (Suc i) s) in
         if joined = [] then (Inl IndexError, w)
         else
           (let currentPath = (if last joined \<noteq> CHR ''/'' then joined @ ''/'' else joined)
            in case first (filter (\<lambda>r. path r = currentPath) (gdrive_ids w)) of
                 Some storedPathName \<Rightarrow>
                   getFolderId_loop s drive rest (gdrive_id storedPathName) dbChange w
               | None \<Rightarrow>
                   (case getFolderInFolder currentFolderId x drive w of
                      (Inl e, w') \<Rightarrow> (Inl e, w')
                    | (Inr None, w') \<Rightarrow> (Inr (None, dbChange), w')
                    | (Inr (Some currentFolder), w') \<Rightarrow>
                        getFolderId_loop s drive rest (Some (file_id currentFolder)) True
                          (merge_GdriveId (Some (file_id currentFolder)) currentPath w'))))
      else getFolderId_loop s drive rest currentFolderId dbChange w)"

definition getFolderId ::
  "string \<Rightarrow> string \<Rightarrow> drive \<Rightarrow> world \<Rightarrow> (exn + string option) \<times> world" where
  "getFolderId config_google_drive_folder path' drive w =
     (case getEbooksFolderId config_google_drive_folder drive w of
        (Inl e, w1) \<Rightarrow> (Inl e, w1)
      | (Inr currentFolderId, w1) \<Rightarrow>
          (if path' = [] then (Inl IndexError, w1)
           else
             (let sqlCheckPath = (if last path' = CHR ''/'' then path' else path' @ ''/'')
              in case first (filter (\<lambda>r. path r = sqlCheckPath) (gdrive_ids w1)) of
                   None \<Rightarrow>
                     (let s = split_py (CHR ''/'') path'
                      in case getFolderId_loop s drive (enumerate_py s) currentFolderId False w1 of
                           (Inl e, w2) \<Rightarrow> (Inl e, w2)
                         | (Inr (currentFolderId', dbChange), w2) \<Rightarrow>
                             (Inr currentFolderId', if dbChange then commit w2 else w2))
                 | Some storedPathName \<Rightarrow> (Inr (gdrive_id storedPathName), w1))))"

definition file_query :: "string \<Rightarrow> string \<Rightarrow> string" where
  "file_query pathId fileName =
     apos @ pathId @ apos @ '' in parents and trashed = false and title = '' @ apos @
     replace_py fileName apos (backslash @ apos) @ apos"

definition getFile :: "string \<Rightarrow> string \<Rightarrow> drive \<Rightarrow> world \<Rightarrow> (exn + gfile option) \<times> world" where
  "getFile pathId fileName drive w =
     (let metaDataFile = file_query pathId fileName;
          w' = w\<lparr>list_queries := list_queries w @ [metaDataFile]\<rparr>
      in case ListFile drive metaDataFile of
           Inl e \<Rightarrow> (Inl e, w')
         | Inr fileList \<Rightarrow>
             (if length fileList = 0 then (Inr None, w')
              else (Inr (Some (fileList ! 0)), w')))"

definition getFileFromEbooksFolder ::
  "string \<Rightarrow> drive \<Rightarrow> string option \<Rightarrow> string \<Rightarrow> world \<Rightarrow> (exn + gfile option) \<times> world" where
  "getFileFromEbooksFolder config_google_drive_folder drive path' fileName w =
     (case (if truthy path' then getFolderId config_google_drive_folder (str_of path') drive w
            else getEbooksFolderId config_google_drive_folder drive w) of
        (Inl e, w1) \<Rightarrow> (Inl e, w1)
      | (Inr folderId, w1) \<Rightarrow>
          (if truthy folderId then getFile (str_of folderId) fileName drive w1
           else (Inr None, w1)))"

section \<open>Public links, cache maintenance\<close>

definition get_cover_via_gdrive ::
  "string \<Rightarrow> drive \<Rightarrow> string option \<Rightarrow> world \<Rightarrow> (exn + string option) \<times> world" where
  "get_cover_via_gdrive config_google_drive_folder drive cover_path w =
     (case getFileFromEbooksFolder config_google_drive_folder drive cover_path ''cover.jpg'' w of
        (Inl e, w1) \<Rightarrow> (Inl e, w1)
      | (Inr None, w1) \<Rightarrow> (Inr None, w1)
      | (Inr (Some df), w1) \<Rightarrow>
          (if first (filter (\<lambda>r. perm_gdrive_id r = Some (file_id df)) (permissions_added w1)) = None
           then
             (case GetPermissions drive (file_id df) of
                Some e \<Rightarrow> (Inl e, w1)
              | None \<Rightarrow>
                  (let w2 = w1\<lparr>permission_calls := permission_calls w1 @ [file_id df]\<rparr>
                   in case InsertPermission drive (file_id df) of
                        Some e \<Rightarrow> (Inl e, w2)
                      | None \<Rightarrow>
                          (Inr (webContentLink df),
                           commit (add_PermissionAdded (Some (file_id df)) w2))))
           else (Inr (webContentLink df), w1)))"

definition deleteDatabaseOnChange :: "world \<Rightarrow> world" where
  "deleteDatabaseOnChange w = commit (w\<lparr>gdrive_ids := []\<rparr>)"

text \<open>
  \<open>updateDatabaseOnEdit\<close>: the query on \<open>gdrive_id\<close> has no \<open>ORDER BY\<close>, so which of the
  matching rows \<open>first()\<close> returns is the engine's choice (SQLite answers this query from
  the index on \<open>(gdrive_id, path)\<close>, not in primary-key order). It is the parameter
  \<open>engine_first\<close>, given the matching rows in primary-key order. The assignment changes
  the row of that primary key; the commit flushes it, and the flush raises when the path
  changes and another row already holds the same \<open>gdrive_id\<close> and the new path. The model
  then leaves the session as it was before the call: nothing is written, and the
  rollback that the session needs afterwards is outside the model.
\<close>

definition updateDatabaseOnEdit ::
  "(GdriveId list \<Rightarrow> GdriveId option) \<Rightarrow> string \<Rightarrow> string \<Rightarrow> world
     \<Rightarrow> (exn + unit) \<times> world" where
  "updateDatabaseOnEdit engine_first ID newPath w =
     (if newPath = [] then (Inl IndexError, w)
      else
        (let sqlCheckPath = (if last newPath = CHR ''/'' then newPath else newPath @ ''/'')
         in case engine_first (filter (\<lambda>r. gdrive_id r = Some ID) (gdrive_ids w)) of
              Some storedPathName \<Rightarrow>
                (if path storedPathName \<noteq> sqlCheckPath \<and>
                    (\<exists>r \<in> set (gdrive_ids w).
                       id_col r \<noteq> id_col storedPathName \<and> gdrive_id r \<noteq> None \<and>
                       gdrive_id r = gdrive_id storedPathName \<and> path r = sqlCheckPath)
                 then (Inl IntegrityError, w)
                 else
                   (Inr (),
                    commit (w\<lparr>gdrive_ids :=
                      map (\<lambda>r. if id_col r = id_col storedPathName
                               then r\<lparr>path := sqlCheckPath\<rparr> else r)
                        (gdrive_ids w)\<rparr>)))
            | None \<Rightarrow> (Inr (), w)))"

definition deleteDatabaseEntry :: "string \<Rightarrow> world \<Rightarrow> world" where
  "deleteDatabaseEntry ID w =
     commit (w\<lparr>gdrive_ids := filter (\<lambda>r. gdrive_id r \<noteq> Some ID) (gdrive_ids w)\<rparr>)"

text \<open>
  The operations of the module that touch the store, and a run of calls, each with the
  configuration and the drive of its moment; a call of \<open>updateDatabaseOnEdit\<close> carries the
  engine's \<open>first()\<close> of its moment. A call that raises leaves the session as it was at
  the raise.
\<close>

datatype op =
    Op_getFolderId string
  | Op_getEbooksFolderId
  | Op_getFileFromEbooksFolder "string option" string
  | Op_get_cover_via_gdrive "string option"
  | Op_updateDatabaseOnEdit "GdriveId list \<Rightarrow> GdriveId option" string string
  | Op_deleteDatabaseEntry string
  | Op_deleteDatabaseOnChange

fun run_op :: "string \<Rightarrow> drive \<Rightarrow> op \<Rightarrow> world \<Rightarrow> world" where
  "run_op cfg drive (Op_getFolderId p) w = snd (getFolderId cfg p drive w)"
| "run_op cfg drive Op_getEbooksFolderId w = snd (getEbooksFolderId cfg drive w)"
| "run_op cfg drive (Op_getFileFromEbooksFolder p f) w = snd (getFileFromEbooksFolder cfg drive p f w)"
| "run_op cfg drive (Op_get_cover_via_gdrive p) w = snd (get_cover_via_gdrive cfg drive p w)"
| "run_op cfg drive (Op_updateDatabaseOnEdit engine_first ID p) w =
     snd (updateDatabaseOnEdit engine_first ID p w)"
| "run_op cfg drive (Op_deleteDatabaseEntry ID) w = deleteDatabaseEntry ID w"
| "run_op cfg drive Op_deleteDatabaseOnChange w = deleteDatabaseOnChange w"

fun run :: "(string \<times> drive \<times> op) list \<Rightarrow> world \<Rightarrow> world" where
  "run [] w = w"
| "run ((cfg, drive, c) # cs) w = run cs (run_op cfg drive c w)"

section \<open>Chunked download\<close>

text \<open>
  \<open>request url range\<close> is what \<open>df.auth.Get_Http_Object().request\<close> returns for the URL and
  the \<open>Range\<close> header, a status and the content, or raises. The generator \<open>stream\<close> is
  read to its end: the result is the chunks yielded in order, how the generator ended
  (\<open>Inr ()\<close> when it was exhausted or returned, \<open>Inl e\<close> when it raised) and the warnings
  logged. \<open>do_gdrive_download\<close> returns the body of the response; the headers are passed
  through and left out.
\<close>

definition range_header :: "int list \<Rightarrow> string" where
  "range_header byte = ''bytes='' @ str_int (byte ! 0) @ ''-'' @ str_int (byte ! 1)"

fun stream ::
  "(string option \<Rightarrow> string \<Rightarrow> exn + (int \<times> string)) \<Rightarrow> string option \<Rightarrow> int list list
     \<Rightarrow> string list \<times> (exn + unit) \<times> string list" where
  "stream request download_url [] = ([], Inr (), [])"
| "stream request download_url (byte # s) =
     (if length byte < 2 then ([], Inl IndexError, [])
      else
        (case request download_url (range_header byte) of
           Inl e \<Rightarrow> ([], Inl e, [])
         | Inr (status, content) \<Rightarrow>
             (if status = 206 then
                (case stream request download_url s of
                   (chunks, ending, warnings) \<Rightarrow> (content # chunks, ending, warnings))
              else ([], Inr (), [''An error occurred: '' @ str_int status]))))"

definition do_gdrive_download ::
  "gfile \<Rightarrow> (string option \<Rightarrow> string \<Rightarrow> exn + (int \<times> string))
     \<Rightarrow> exn + (string list \<times> (exn + unit) \<times> string list)" where
  "do_gdrive_download df request =
     (case fileSize df of
        None \<Rightarrow> Inl TypeError
      | Some total_size \<Rightarrow>
          (case partial total_size (1024 * 1024) of
             Inl e \<Rightarrow> Inl e
           | Inr s \<Rightarrow> Inr (stream request (downloadUrl df) s)))"

section \<open>Schema migration\<close>

text \<open>
  The database engine is a parameter: \<open>has_table\<close> is \<open>engine.dialect.has_table\<close>,
  \<open>create_table\<close> the creation of a declared table, \<open>select_table_sql\<close> the rows of
  \<open>select sql from sqlite_master where type='table'\<close>, \<open>execute\<close> the execution of a raw
  statement and \<open>session_commit\<close> the commit; each of the last may raise. The database
  \<open>'db\<close> holds the schema and the rows of every table.
\<close>

record 'db engine =
  has_table :: "'db \<Rightarrow> string \<Rightarrow> bool"
  create_table :: "string \<Rightarrow> 'db \<Rightarrow> exn + 'db"
  select_table_sql :: "'db \<Rightarrow> string list"
  execute :: "string \<Rightarrow> 'db \<Rightarrow> exn + 'db"
  session_commit :: "'db \<Rightarrow> exn + 'db"

definition and_then :: "exn + 'a \<Rightarrow> ('a \<Rightarrow> exn + 'b) \<Rightarrow> exn + 'b" where
  "and_then r f = (case r of Inl e \<Rightarrow> Inl e | Inr x \<Rightarrow> f x)"

fun migrate_loop :: "'db engine \<Rightarrow> string list \<Rightarrow> 'db \<Rightarrow> exn + 'db" where
  "migrate_loop eng [] db = Inr db"
| "migrate_loop eng (sql0 # rest) db =
     (if contains ''CREATE TABLE gdrive_ids'' sql0 then
        (let currUniqueConstraint = ''UNIQUE (gdrive_id)'' in
         if contains currUniqueConstraint sql0 then
           (let sql = replace_py sql0 currUniqueConstraint ''UNIQUE (gdrive_id, path)'';
                sql = replace_py sql ''gdrive_ids'' (''gdrive_ids'' @ ''2'')
            in and_then (execute eng sql db) (\<lambda>db.
               and_then (execute eng (''INSERT INTO gdrive_ids2 (id, gdrive_id, path) SELECT id, '' @
                                      ''gdrive_id, path FROM gdrive_ids;'') db) (\<lambda>db.
               and_then (session_commit eng db) (\<lambda>db.
               and_then (execute eng ''DROP TABLE gdrive_ids'' db) (\<lambda>db.
               execute eng ''ALTER TABLE gdrive_ids2 RENAME to gdrive_ids'' db)))))
         else Inr db)
      else migrate_loop eng rest db)"

definition migrate :: "'db engine \<Rightarrow> 'db \<Rightarrow> exn + 'db" where
  "migrate eng db =
     and_then (if \<not> has_table eng db ''permissions_added''
               then create_table eng ''permissions_added'' db else Inr db)
       (\<lambda>db. migrate_loop eng (select_table_sql eng db) db)"

section \<open>Concrete stores and drives\<close>

text \<open>
  A session with empty tables; a drive whose root holds the folder \<open>Books\<close>, which holds
  the folder \<open>Author1\<close>; a drive with no folder at all; a drive whose every call raises.
\<close>

definition empty_world :: world where
  "empty_world = \<lparr>gdrive_ids = [], permissions_added = [], committed_gdrive_ids = [],
     committed_permissions_added = [], log = [], list_queries = [], permission_calls = []\<rparr>"

definition folder :: "string \<Rightarrow> gfile" where
  "folder i = \<lparr>file_id = i, webContentLink = None, fileSize = None, downloadUrl = None\<rparr>"

definition books_author1_drive :: drive where
  "books_author1_drive =
     \<lparr>ListFile = (\<lambda>q.
         if q = folder_query (Some ''root'') ''Books'' then Inr [folder ''idBooks'']
         else if q = folder_query (Some ''idBooks'') ''Author1'' then Inr [folder ''idAuthor1'']
         else Inr []),
       GetPermissions = (\<lambda>_. None),
       InsertPermission = (\<lambda>_. None)\<rparr>"

definition empty_drive :: drive where
  "empty_drive =
     \<lparr>ListFile = (\<lambda>q. Inr []), GetPermissions = (\<lambda>_. None), InsertPermission = (\<lambda>_. None)\<rparr>"

definition failing_drive :: drive where
  "failing_drive =
     \<lparr>ListFile = (\<lambda>q. Inl (ApiError ''unreachable'')),
       GetPermissions = (\<lambda>_. Some (ApiError ''unreachable'')),
       InsertPermission = (\<lambda>_. Some (ApiError ''unreachable''))\<rparr>"

text \<open>
  A session whose cache holds the row of \<open>Author1/\<close> and no row of the root; a drive
  that raises on the root query for \<open>Books\<close> and finds nothing otherwise; the session
  whose cache holds the root row and the row of \<open>Author1/\<close>, both committed.
\<close>

definition author1_only_world :: world where
  "author1_only_world =
     empty_world\<lparr>gdrive_ids := [\<lparr>id_col = 1, gdrive_id = Some ''idAuthor1'', path = ''Author1/''\<rparr>]\<rparr>"

definition root_failing_drive :: drive where
  "root_failing_drive =
     \<lparr>ListFile = (\<lambda>q. if q = folder_query (Some ''root'') ''Books''
                         then Inl (ApiError ''unreachable'') else Inr []),
       GetPermissions = (\<lambda>_. None), InsertPermission = (\<lambda>_. None)\<rparr>"

definition books_author1_world :: world where
  "books_author1_world =
     empty_world\<lparr>gdrive_ids := [\<lparr>id_col = 1, gdrive_id = Some ''idBooks'', path = ''/''\<rparr>,
                                 \<lparr>id_col = 2, gdrive_id = Some ''idAuthor1'', path = ''Author1/''\<rparr>],
                  committed_gdrive_ids := [\<lparr>id_col = 1, gdrive_id = Some ''idBooks'', path = ''/''\<rparr>,
                                 \<lparr>id_col = 2, gdrive_id = Some ''idAuthor1'', path = ''Author1/''\<rparr>]\<rparr>"

text \<open>
  The scenario of the folder chain: the first and the second resolution of \<open>Author1/\<close>
  from the empty cache, and the resolution of the root alone.
\<close>

definition first_resolution :: "(exn + string option) \<times> world" where
  "first_resolution = getFolderId ''Books'' ''Author1/'' books_author1_drive empty_world"

definition second_resolution :: "(exn + string option) \<times> world" where
  "second_resolution = getFolderId ''Books'' ''Author1/'' books_author1_drive (snd first_resolution)"

definition root_resolution :: "(exn + string option) \<times> world" where
  "root_resolution = getEbooksFolderId ''Books'' books_author1_drive empty_world"

text \<open>
  A database engine reduced to its catalogue of table names and definitions, on which
  every raw statement fails, and the catalogue of a migrated database.
\<close>

definition catalog_engine :: "(string \<times> string) list engine" where
  "catalog_engine =
     \<lparr>has_table = (\<lambda>db name. name \<in> set (map fst db)),
       create_table = (\<lambda>name db. Inr (db @ [(name, ''CREATE TABLE '' @ name)])),
       select_table_sql = map snd,
       execute = (\<lambda>sql db. Inl (ApiError ''no statement expected'')),
       session_commit = Inr\<rparr>"

definition migrated_catalog :: "(string \<times> string) list" where
  "migrated_catalog =
     [(''permissions_added'',
       ''CREATE TABLE permissions_added (id INTEGER NOT NULL, gdrive_id INTEGER, '' @
       ''PRIMARY KEY (id), UNIQUE (gdrive_id))''),
      (''gdrive_ids'',
       ''CREATE TABLE gdrive_ids (id INTEGER NOT NULL, gdrive_id INTEGER, path VARCHAR, '' @
       ''PRIMARY KEY (id), CONSTRAINT _gdrive_path_uc UNIQUE (gdrive_id, path))'')]"

text \<open>
  A file of 2500000 bytes, and a transport that serves the first range, answers the
  second with status 500 and would serve any other.
\<close>

definition big_file :: gfile where
  "big_file = \<lparr>file_id = ''idBig'', webContentLink = None, fileSize = Some 2500000,
                downloadUrl = Some ''https://drive.example/big''\<rparr>"

definition second_range_refused :: "string option \<Rightarrow> string \<Rightarrow> exn + (int \<times> string)" where
  "second_range_refused url rng =
     (if rng = ''bytes=0-1048575'' then Inr (206, ''first chunk'')
      else if rng = ''bytes=1048576-2097151'' then Inr (500, ''server error'')
      else Inr (206, ''later chunk''))"

text \<open>
  A drive that also holds the file \<open>cover.jpg\<close> in \<open>Author1\<close>; the session after the first
  request for the public link of that cover; a run of calls that asks for the link again,
  empties the path cache and asks once more.
\<close>

definition cover_file :: gfile where
  "cover_file = \<lparr>file_id = ''idCover'', webContentLink = Some ''https://drive.example/cover'',
                  fileSize = Some 1000, downloadUrl = None\<rparr>"

definition cover_drive :: drive where
  "cover_drive =
     \<lparr>ListFile = (\<lambda>q.
         if q = folder_query (Some ''root'') ''Books'' then Inr [folder ''idBooks'']
         else if q = folder_query (Some ''idBooks'') ''Author1'' then Inr [folder ''idAuthor1'']
         else if q = file_query ''idAuthor1'' ''cover.jpg''
           then Inr [cover_file]
         else Inr []),
       GetPermissions = (\<lambda>_. None),
       InsertPermission = (\<lambda>_. None)\<rparr>"

definition cover_granted_world :: world where
  "cover_granted_world =
     books_author1_world\<lparr>
       permissions_added := [\<lparr>perm_id_col = 1, perm_gdrive_id = Some ''idCover''\<rparr>],
       committed_permissions_added := [\<lparr>perm_id_col = 1, perm_gdrive_id = Some ''idCover''\<rparr>],
       list_queries := [file_query ''idAuthor1'' ''cover.jpg''],
       permission_calls := [''idCover'']\<rparr>"

definition cover_calls :: "(string \<times> drive \<times> op) list" where
  "cover_calls =
     [(''Books'', cover_drive, Op_get_cover_via_gdrive (Some ''Author1/'')),
      (''Books'', cover_drive, Op_deleteDatabaseOnChange),
      (''Books'', cover_drive, Op_get_cover_via_gdrive (Some ''Author1/''))]"

text \<open>
  An engine that answers the query on \<open>gdrive_id\<close> from the index on \<open>(gdrive_id, path)\<close>,
  as SQLite does on the migrated table: of the matching rows it returns the one whose path
  is least in byte order (\<open>bytes_less\<close> is the comparison of the \<open>BINARY\<close> collation), the
  earlier row among equal paths. A drive with the chain root, \<open>Books\<close>, \<open>a\<close>, \<open>b\<close>, and the
  session after the root, \<open>a/b\<close> and \<open>a//b\<close> were resolved on it from the empty cache, which
  holds two rows for the folder \<open>b\<close>.
\<close>

fun bytes_less :: "string \<Rightarrow> string \<Rightarrow> bool" where
  "bytes_less [] [] = False"
| "bytes_less [] (y # ys) = True"
| "bytes_less (x # xs) [] = False"
| "bytes_less (x # xs) (y # ys) =
     ((of_char x :: nat) < of_char y \<or> (x = y \<and> bytes_less xs ys))"

fun least_path :: "GdriveId \<Rightarrow> GdriveId list \<Rightarrow> GdriveId" where
  "least_path best [] = best"
| "least_path best (r # rs) =
     least_path (if bytes_less (path r) (path best) then r else best) rs"

definition index_first :: "GdriveId list \<Rightarrow> GdriveId option" where
  "index_first rows = (case rows of [] \<Rightarrow> None | r # rs \<Rightarrow> Some (least_path r rs))"

definition a_b_drive :: drive where
  "a_b_drive =
     \<lparr>ListFile = (\<lambda>q.
         if q = folder_query (Some ''root'') ''Books'' then Inr [folder ''idBooks'']
         else if q = folder_query (Some ''idBooks'') ''a'' then Inr [folder ''idA'']
         else if q = folder_query (Some ''idA'') ''b'' then Inr [folder ''idB'']
         else Inr []),
       GetPermissions = (\<lambda>_. None),
       InsertPermission = (\<lambda>_. None)\<rparr>"

definition two_paths_world :: world where
  "two_paths_world =
     run [(''Books'', a_b_drive, Op_getEbooksFolderId),
          (''Books'', a_b_drive, Op_getFolderId ''a/b''),
          (''Books'', a_b_drive, Op_getFolderId ''a//b'')] empty_world"

section \<open>The chunk splitter\<close>

declare range_py.simps [simp del]

lemma partial_loop_map:
  "partial_loop L C ps s = s @ map (\<lambda>p. [p, min (L - 1) (p + C - 1)]) ps"
  by (induction ps arbitrary: s) (simp_all add: Let_def)

lemma range_py_closed:
  "0 < C \<Longrightarrow> range_py p L C = map (\<lambda>k. p + int k * C) [0..<nat ((L - p + C - 1) div C)]"
proof (induction p L C rule: range_py.induct)
  case (1 p stop step)
  show ?case
  proof (cases "p < stop")
    case True
    have d: "(stop - p + step - 1) div step = (stop - (p + step) + step - 1) div step + 1"
    proof -
      have "stop - p + step - 1 = (stop - (p + step) + step - 1) + step" by simp
      then show ?thesis using 1(2) by (metis div_add_self2 less_irrefl)
    qed
    have nn: "0 \<le> (stop - (p + step) + step - 1) div step"
      using True 1(2) by (simp add: pos_imp_zdiv_nonneg_iff)
    have n: "nat ((stop - p + step - 1) div step) = Suc (nat ((stop - (p + step) + step - 1) div step))"
      using d nn by simp
    have ih: "range_py (p + step) stop step =
        map (\<lambda>k. p + step + int k * step) [0..<nat ((stop - (p + step) + step - 1) div step)]"
      using 1(1) True 1(2) by simp
    show ?thesis
      using True 1(2)
      apply (subst range_py.simps)
      apply (simp only: n ih)
      apply (simp add: upt_conv_Cons map_Suc_upt [symmetric] del: upt_Suc)
      apply (simp add: algebra_simps)
      done
  next
    case False
    then have "(stop - p + step - 1) div step \<le> 0"
      using 1(2) zdiv_mono1 [of "stop - p + step - 1" "step - 1" step] by simp
    then show ?thesis using False 1(2)
      by (subst range_py.simps) simp
  qed
qed

lemma chunk_start_lt:
  assumes "0 < C" and "int k < (L + C - 1) div C"
  shows "int k * C < L"
proof -
  have "int k + 1 \<le> (L + C - 1) div C" using assms(2) by simp
  then have "(int k + 1) * C \<le> ((L + C - 1) div C) * C"
    using assms(1) by (simp add: mult_right_mono)
  also have "\<dots> \<le> L + C - 1"
  proof -
    have "0 \<le> (L + C - 1) mod C" using assms(1) by simp
    then show ?thesis by (simp add: minus_mod_eq_div_mult [symmetric])
  qed
  finally show ?thesis by (simp add: algebra_simps)
qed

lemma chunks_reach_end:
  assumes "0 < (C::int)"
  shows "L \<le> ((L + C - 1) div C) * C"
proof -
  have "((L + C - 1) div C) * C = L + C - 1 - (L + C - 1) mod C"
    by (simp add: minus_mod_eq_div_mult [symmetric])
  moreover have "(L + C - 1) mod C < C" using assms by simp
  ultimately show ?thesis by simp
qed

lemma concat_spans:
  "0 < C \<Longrightarrow>
   concat (map (\<lambda>r. [hd r .. last r])
     (map (\<lambda>p. [p, min (L - 1) (p + C - 1)]) (range_py p L C))) = [p .. L - 1]"
proof (induction p L C rule: range_py.induct)
  case (1 p stop step)
  show ?case
  proof (cases "p < stop")
    case True
    have ih: "concat (map (\<lambda>r. [hd r .. last r])
        (map (\<lambda>p. [p, min (stop - 1) (p + step - 1)]) (range_py (p + step) stop step)))
        = [p + step .. stop - 1]"
      using 1 True by simp
    show ?thesis
    proof (cases "p + step - 1 < stop - 1")
      case True
      then have "[p .. stop - 1] = [p .. p + step - 1] @ [p + step - 1 + 1 .. stop - 1]"
        using 1(2) by (intro upto_split2) simp_all
      then show ?thesis using \<open>p < stop\<close> 1(2) True ih
        by (subst range_py.simps) (simp add: min_def)
    next
      case False
      then show ?thesis using \<open>p < stop\<close> 1(2) ih
        by (subst range_py.simps) (simp add: min_def)
    qed
  next
    case False
    then show ?thesis using 1(2) by (subst range_py.simps) simp
  qed
qed

text \<open>
  Claim C1. For a non-negative total length and a positive chunk size, \<open>partial\<close> returns
  (without raising) an ordered list of two-element ranges \<open>[start, end]\<close>, each within
  \<open>[0, L - 1]\<close> and spanning at most \<open>C\<close> bytes, the first starting at 0, each next one
  starting right after the previous one ends, the last ending at \<open>L - 1\<close>; the ranges laid
  end to end are exactly the bytes \<open>0 .. L - 1\<close>, once each. A total length of 0 gives the
  empty list, and \<open>partial 10 4 = [[0,3],[4,7],[8,9]]\<close>.
\<close>

theorem partial_covers:
  assumes "0 \<le> L" and "0 < C"
  shows "partial 10 4 = Inr [[0, 3], [4, 7], [8, 9]] \<and>
    (\<exists>rs. partial L C = Inr rs
      \<and> (\<forall>r \<in> set rs. \<exists>a b. r = [a, b] \<and> 0 \<le> a \<and> a \<le> b \<and> b \<le> L - 1 \<and> b - a + 1 \<le> C)
      \<and> (rs \<noteq> [] \<longrightarrow> hd (hd rs) = 0 \<and> last (last rs) = L - 1)
      \<and> (\<forall>i. Suc i < length rs \<longrightarrow> hd (rs ! Suc i) = last (rs ! i) + 1)
      \<and> concat (map (\<lambda>r. [hd r .. last r]) rs) = [0 .. L - 1]
      \<and> (L = 0 \<longrightarrow> rs = []))"
proof -
  define n where "n = nat ((L + C - 1) div C)"
  define f where "f = (\<lambda>k. [int k * C, min (L - 1) (int k * C + C - 1)])"
  define rs where "rs = map f [0..<n]"
  have C0: "C \<noteq> 0" using assms(2) by simp
  have ranges: "range_py 0 L C = map (\<lambda>k. int k * C) [0..<n]"
    using range_py_closed [OF assms(2), of 0 L] by (simp add: n_def)
  have eq: "partial L C = Inr rs"
    by (simp add: partial_def C0 partial_loop_map ranges rs_def f_def o_def)
  have lt: "int k * C < L" if "k < n" for k
    using that chunk_start_lt [OF assms(2), of k L] by (simp add: n_def)
  have wf: "\<forall>r \<in> set rs. \<exists>a b. r = [a, b] \<and> 0 \<le> a \<and> a \<le> b \<and> b \<le> L - 1 \<and> b - a + 1 \<le> C"
  proof
    fix r assume "r \<in> set rs"
    then obtain k where k: "k < n" and r: "r = f k" by (auto simp: rs_def)
    have "0 \<le> int k * C" using assms(2) by simp
    then show "\<exists>a b. r = [a, b] \<and> 0 \<le> a \<and> a \<le> b \<and> b \<le> L - 1 \<and> b - a + 1 \<le> C"
      using lt [OF k] assms(2) by (simp add: r f_def min_def)
  qed
  have ends: "rs \<noteq> [] \<longrightarrow> hd (hd rs) = 0 \<and> last (last rs) = L - 1"
  proof
    assume "rs \<noteq> []"
    then have n0: "0 < n" by (simp add: rs_def)
    have h: "hd rs = f 0" using n0 by (simp add: rs_def hd_map hd_upt)
    have l: "last rs = f (n - 1)" using n0 by (simp add: rs_def last_map)
    have "int n = (L + C - 1) div C" using n0 by (simp add: n_def)
    then have "L \<le> int n * C" using chunks_reach_end [OF assms(2), of L] by simp
    moreover have "int (n - 1) = int n - 1" using n0 by simp
    ultimately have "L - 1 \<le> int (n - 1) * C + C - 1" by (simp add: algebra_simps)
    then show "hd (hd rs) = 0 \<and> last (last rs) = L - 1"
      by (simp add: h l f_def)
  qed
  have contig: "\<forall>i. Suc i < length rs \<longrightarrow> hd (rs ! Suc i) = last (rs ! i) + 1"
  proof (intro allI impI)
    fix i assume i: "Suc i < length rs"
    then have "Suc i < n" by (simp add: rs_def)
    then have "int (Suc i) * C < L" by (rule lt)
    then have "int i * C + C - 1 \<le> L - 1" by (simp add: algebra_simps)
    then show "hd (rs ! Suc i) = last (rs ! i) + 1"
      using i by (simp add: rs_def f_def algebra_simps)
  qed
  have cover: "concat (map (\<lambda>r. [hd r .. last r]) rs) = [0 .. L - 1]"
    using concat_spans [OF assms(2), of L 0] by (simp add: rs_def f_def ranges o_def)
  have zero: "L = 0 \<longrightarrow> rs = []"
    using assms(2) by (simp add: rs_def n_def)
  have ex: "partial 10 4 = Inr [[0, 3], [4, 7], [8, 9]]"
    by (simp add: partial_def range_py.simps)
  show ?thesis using eq wf ends contig cover zero ex by blast
qed

theorem partial_covers_witness:
  "(0::int) \<le> 5 \<and> (0::int) < 2 \<and> partial 5 2 = Inr [[0, 1], [2, 3], [4, 4]] \<and>
   partial 10 4 = Inr [[0, 3], [4, 7], [8, 9]] \<and>
    (\<exists>rs. partial 5 2 = Inr rs
      \<and> (\<forall>r \<in> set rs. \<exists>a b. r = [a, b] \<and> 0 \<le> a \<and> a \<le> b \<and> b \<le> 5 - 1 \<and> b - a + 1 \<le> 2)
      \<and> (rs \<noteq> [] \<longrightarrow> hd (hd rs) = 0 \<and> last (last rs) = 5 - 1)
      \<and> (\<forall>i. Suc i < length rs \<longrightarrow> hd (rs ! Suc i) = last (rs ! i) + 1)
      \<and> concat (map (\<lambda>r. [hd r .. last r]) rs) = [0 .. 5 - 1]
      \<and> ((5::int) = 0 \<longrightarrow> rs = []))"
proof -
  have a: "(0::int) \<le> 5" and b: "(0::int) < 2" by simp_all
  have c: "partial 5 2 = Inr [[0, 1], [2, 3], [4, 4]]"
    by (simp add: partial_def range_py.simps)
  show ?thesis using partial_covers [OF a b] a b c by blast
qed

section \<open>Cache maintenance\<close>

text \<open>
  Claim C10. \<open>deleteDatabaseOnChange\<close> and \<open>deleteDatabaseEntry\<close> leave the session's
  \<open>PermissionAdded\<close> rows as they are, and their commit writes exactly these rows; no
  permission call is made. Of the path cache the first removes every row, the second
  the rows of the given \<open>gdrive_id\<close>.
\<close>

theorem invalidation_keeps_permissions:
  "permissions_added (deleteDatabaseOnChange w) = permissions_added w \<and>
   permissions_added (deleteDatabaseEntry ID w) = permissions_added w \<and>
   committed_permissions_added (deleteDatabaseOnChange w) = permissions_added w \<and>
   committed_permissions_added (deleteDatabaseEntry ID w) = permissions_added w \<and>
   permission_calls (deleteDatabaseOnChange w) = permission_calls w \<and>
   permission_calls (deleteDatabaseEntry ID w) = permission_calls w \<and>
   gdrive_ids (deleteDatabaseOnChange w) = [] \<and>
   gdrive_ids (deleteDatabaseEntry ID w) = filter (\<lambda>r. gdrive_id r \<noteq> Some ID) (gdrive_ids w)"
  by (simp add: deleteDatabaseOnChange_def deleteDatabaseEntry_def commit_def)

lemma first_filter_None: "(first (filter P xs) = None) = (\<forall>x \<in> set xs. \<not> P x)"
  by (induction xs) (auto simp: first_def)

lemma row_by_key:
  "distinct (map k xs) \<Longrightarrow> r \<in> set xs \<Longrightarrow> x \<in> set xs \<Longrightarrow> (k x = k r) = (x = r)"
  by (auto simp: distinct_map inj_on_def)

lemma least_path_in_set: "least_path best rs \<in> set (best # rs)"
  by (induction rs arbitrary: best) (auto split: if_splits)

lemma index_first_None: "(index_first rows = None) = (rows = [])"
  by (simp add: index_first_def split: list.splits)

lemma index_first_Some: "index_first rows = Some r \<Longrightarrow> r \<in> set rows"
  using least_path_in_set by (auto simp: index_first_def split: list.splits)

lemma two_paths_rows:
  "gdrive_ids two_paths_world =
     [\<lparr>id_col = 1, gdrive_id = Some ''idBooks'', path = ''/''\<rparr>,
      \<lparr>id_col = 2, gdrive_id = Some ''idA'', path = ''a/''\<rparr>,
      \<lparr>id_col = 3, gdrive_id = Some ''idB'', path = ''a/b/''\<rparr>,
      \<lparr>id_col = 4, gdrive_id = Some ''idB'', path = ''a//b/''\<rparr>] \<and>
   committed_gdrive_ids two_paths_world = gdrive_ids two_paths_world"
  by code_simp

text \<open>
  Claim C7 as stated fails. On the empty string \<open>newPath[-1]\<close> raises, although the id has
  a row, and nothing is renamed. And on the session that resolving \<open>a/b\<close> and \<open>a//b\<close> leaves,
  with the rows \<open>a/b/\<close> and \<open>a//b/\<close> for the one folder \<open>idB\<close>, renaming \<open>idB\<close> to \<open>a/b\<close>
  on an engine that answers from the index picks the row \<open>a//b/\<close>; its new path is the path
  of the other row, the commit raises and nothing is committed.
\<close>

theorem rename_raises:
  "(\<exists>r \<in> set (gdrive_ids books_author1_world). gdrive_id r = Some ''idAuthor1'') \<and>
   updateDatabaseOnEdit index_first ''idAuthor1'' [] books_author1_world
     = (Inl IndexError, books_author1_world) \<and>
   map path (filter (\<lambda>r. gdrive_id r = Some ''idB'') (gdrive_ids two_paths_world))
     = [''a/b/'', ''a//b/''] \<and>
   index_first (filter (\<lambda>r. gdrive_id r = Some ''idB'') (gdrive_ids two_paths_world))
     = Some \<lparr>id_col = 4, gdrive_id = Some ''idB'', path = ''a//b/''\<rparr> \<and>
   fst (updateDatabaseOnEdit index_first ''idB'' ''a/b'' two_paths_world) = Inl IntegrityError \<and>
   committed_gdrive_ids (snd (updateDatabaseOnEdit index_first ''idB'' ''a/b'' two_paths_world))
     = committed_gdrive_ids two_paths_world"
  by code_simp

text \<open>
  Claim C7, amended. \<open>updateDatabaseOnEdit ID newPath\<close> for a non-empty \<open>newPath\<close>, on a table
  whose primary keys are distinct, with an engine whose \<open>first()\<close> returns nothing on no
  row and otherwise one of the rows it is given. When no row has \<open>gdrive_id = ID\<close> nothing
  changes and nothing is committed. Otherwise the engine returns one row \<open>r\<close> with that
  \<open>gdrive_id\<close>. Its new path is \<open>newPath\<close> when that ends with \<open>/\<close>, and \<open>newPath\<close> with one
  \<open>/\<close> appended when it does not. When this changes the path of \<open>r\<close> and another row already
  has \<open>gdrive_id = ID\<close> and the new path, the call raises \<open>IntegrityError\<close> and the committed
  table stays as it was. In every other case \<open>r\<close> gets the new path, every other row stays
  as it is, and the session is committed.
\<close>

theorem updateDatabaseOnEdit_rename:
  assumes "newPath \<noteq> []"
    and "distinct (map id_col (gdrive_ids w))"
    and "\<And>rows. (engine_first rows = None) = (rows = [])"
    and "\<And>rows r. engine_first rows = Some r \<Longrightarrow> r \<in> set rows"
  shows
    "(let sqlCheckPath = (if last newPath = CHR ''/'' then newPath else newPath @ ''/'') in
      ((\<forall>r \<in> set (gdrive_ids w). gdrive_id r \<noteq> Some ID) \<longrightarrow>
         updateDatabaseOnEdit engine_first ID newPath w = (Inr (), w)) \<and>
      ((\<exists>r \<in> set (gdrive_ids w). gdrive_id r = Some ID) \<longrightarrow>
         (\<exists>r \<in> set (gdrive_ids w).
            gdrive_id r = Some ID \<and>
            engine_first (filter (\<lambda>r. gdrive_id r = Some ID) (gdrive_ids w)) = Some r \<and>
            (if path r \<noteq> sqlCheckPath \<and>
                (\<exists>r' \<in> set (gdrive_ids w).
                   r' \<noteq> r \<and> gdrive_id r' = Some ID \<and> path r' = sqlCheckPath)
             then fst (updateDatabaseOnEdit engine_first ID newPath w) = Inl IntegrityError \<and>
                  committed_gdrive_ids (snd (updateDatabaseOnEdit engine_first ID newPath w))
                    = committed_gdrive_ids w
             else updateDatabaseOnEdit engine_first ID newPath w =
                    (Inr (),
                     w\<lparr>gdrive_ids :=
                         map (\<lambda>x. if x = r then x\<lparr>path := sqlCheckPath\<rparr> else x) (gdrive_ids w),
                       committed_gdrive_ids :=
                         map (\<lambda>x. if x = r then x\<lparr>path := sqlCheckPath\<rparr> else x) (gdrive_ids w),
                       committed_permissions_added := permissions_added w\<rparr>)))))"
proof -
  define sp where "sp = (if last newPath = CHR ''/'' then newPath else newPath @ ''/'')"
  define matches where "matches = filter (\<lambda>r. gdrive_id r = Some ID) (gdrive_ids w)"
  have unf: "updateDatabaseOnEdit engine_first ID newPath w =
      (case engine_first matches of
         Some storedPathName \<Rightarrow>
           (if path storedPathName \<noteq> sp \<and>
               (\<exists>r \<in> set (gdrive_ids w).
                  id_col r \<noteq> id_col storedPathName \<and> gdrive_id r \<noteq> None \<and>
                  gdrive_id r = gdrive_id storedPathName \<and> path r = sp)
            then (Inl IntegrityError, w)
            else
              (Inr (),
               commit (w\<lparr>gdrive_ids :=
                 map (\<lambda>r. if id_col r = id_col storedPathName then r\<lparr>path := sp\<rparr> else r)
                   (gdrive_ids w)\<rparr>)))
       | None \<Rightarrow> (Inr (), w))"
    using assms(1) unfolding updateDatabaseOnEdit_def sp_def matches_def Let_def by simp
  have absent: "(\<forall>r \<in> set (gdrive_ids w). gdrive_id r \<noteq> Some ID) \<longrightarrow>
         updateDatabaseOnEdit engine_first ID newPath w = (Inr (), w)"
  proof
    assume "\<forall>r \<in> set (gdrive_ids w). gdrive_id r \<noteq> Some ID"
    then have "matches = []" by (simp add: matches_def)
    then have "engine_first matches = None" using assms(3) by simp
    then show "updateDatabaseOnEdit engine_first ID newPath w = (Inr (), w)"
      by (simp add: unf)
  qed
  have present: "(\<exists>r \<in> set (gdrive_ids w). gdrive_id r = Some ID) \<longrightarrow>
         (\<exists>r \<in> set (gdrive_ids w).
            gdrive_id r = Some ID \<and>
            engine_first matches = Some r \<and>
            (if path r \<noteq> sp \<and>
                (\<exists>r' \<in> set (gdrive_ids w). r' \<noteq> r \<and> gdrive_id r' = Some ID \<and> path r' = sp)
             then fst (updateDatabaseOnEdit engine_first ID newPath w) = Inl IntegrityError \<and>
                  committed_gdrive_ids (snd (updateDatabaseOnEdit engine_first ID newPath w))
                    = committed_gdrive_ids w
             else updateDatabaseOnEdit engine_first ID newPath w =
                    (Inr (),
                     w\<lparr>gdrive_ids := map (\<lambda>x. if x = r then x\<lparr>path := sp\<rparr> else x) (gdrive_ids w),
                       committed_gdrive_ids :=
                         map (\<lambda>x. if x = r then x\<lparr>path := sp\<rparr> else x) (gdrive_ids w),
                       committed_permissions_added := permissions_added w\<rparr>)))"
  proof
    assume "\<exists>r \<in> set (gdrive_ids w). gdrive_id r = Some ID"
    then have "matches \<noteq> []" by (auto simp: matches_def filter_empty_conv)
    then obtain r where r: "engine_first matches = Some r"
      using assms(3) [of matches] by (cases "engine_first matches") auto
    have "r \<in> set matches" using assms(4) [OF r] .
    then have rin: "r \<in> set (gdrive_ids w)" and rid: "gdrive_id r = Some ID"
      by (simp_all add: matches_def)
    have key: "(id_col x = id_col r) = (x = r)" if "x \<in> set (gdrive_ids w)" for x
      using row_by_key [OF assms(2) rin that] .
    have clash: "(\<exists>r' \<in> set (gdrive_ids w).
            id_col r' \<noteq> id_col r \<and> gdrive_id r' \<noteq> None \<and>
            gdrive_id r' = gdrive_id r \<and> path r' = sp) =
         (\<exists>r' \<in> set (gdrive_ids w). r' \<noteq> r \<and> gdrive_id r' = Some ID \<and> path r' = sp)"
      using key rid by auto
    have renamed: "map (\<lambda>x. if id_col x = id_col r then x\<lparr>path := sp\<rparr> else x) (gdrive_ids w) =
         map (\<lambda>x. if x = r then x\<lparr>path := sp\<rparr> else x) (gdrive_ids w)"
      using key by (intro map_cong) auto
    have result: "updateDatabaseOnEdit engine_first ID newPath w =
        (if path r \<noteq> sp \<and>
            (\<exists>r' \<in> set (gdrive_ids w). r' \<noteq> r \<and> gdrive_id r' = Some ID \<and> path r' = sp)
         then (Inl IntegrityError, w)
         else (Inr (),
               commit (w\<lparr>gdrive_ids :=
                 map (\<lambda>x. if x = r then x\<lparr>path := sp\<rparr> else x) (gdrive_ids w)\<rparr>)))"
      by (simp only: unf r option.case clash renamed)
    show "\<exists>r \<in> set (gdrive_ids w).
            gdrive_id r = Some ID \<and>
            engine_first matches = Some r \<and>
            (if path r \<noteq> sp \<and>
                (\<exists>r' \<in> set (gdrive_ids w). r' \<noteq> r \<and> gdrive_id r' = Some ID \<and> path r' = sp)
             then fst (updateDatabaseOnEdit engine_first ID newPath w) = Inl IntegrityError \<and>
                  committed_gdrive_ids (snd (updateDatabaseOnEdit engine_first ID newPath w))
                    = committed_gdrive_ids w
             else updateDatabaseOnEdit engine_first ID newPath w =
                    (Inr (),
                     w\<lparr>gdrive_ids := map (\<lambda>x. if x = r then x\<lparr>path := sp\<rparr> else x) (gdrive_ids w),
                       committed_gdrive_ids :=
                         map (\<lambda>x. if x = r then x\<lparr>path := sp\<rparr> else x) (gdrive_ids w),
                       committed_permissions_added := permissions_added w\<rparr>))"
    proof (intro bexI [of _ r] conjI rid r rin)
      show "if path r \<noteq> sp \<and>
                (\<exists>r' \<in> set (gdrive_ids w). r' \<noteq> r \<and> gdrive_id r' = Some ID \<and> path r' = sp)
             then fst (updateDatabaseOnEdit engine_first ID newPath w) = Inl IntegrityError \<and>
                  committed_gdrive_ids (snd (updateDatabaseOnEdit engine_first ID newPath w))
                    = committed_gdrive_ids w
             else updateDatabaseOnEdit engine_first ID newPath w =
                    (Inr (),
                     w\<lparr>gdrive_ids := map (\<lambda>x. if x = r then x\<lparr>path := sp\<rparr> else x) (gdrive_ids w),
                       committed_gdrive_ids :=
                         map (\<lambda>x. if x = r then x\<lparr>path := sp\<rparr> else x) (gdrive_ids w),
                       committed_permissions_added := permissions_added w\<rparr>)"
        by (cases "path r \<noteq> sp \<and>
                (\<exists>r' \<in> set (gdrive_ids w). r' \<noteq> r \<and> gdrive_id r' = Some ID \<and> path r' = sp)")
           (simp_all only: result if_True if_False fst_conv snd_conv commit_def simp_thms,
            simp_all)
    qed
  qed
  show ?thesis
    unfolding Let_def sp_def [symmetric] matches_def [symmetric]
    by (intro conjI absent present)
qed

theorem updateDatabaseOnEdit_rename_witness:
  "fst (updateDatabaseOnEdit index_first ''idB'' ''a//c'' two_paths_world) = Inr () \<and>
   gdrive_ids (snd (updateDatabaseOnEdit index_first ''idB'' ''a//c'' two_paths_world)) =
     [\<lparr>id_col = 1, gdrive_id = Some ''idBooks'', path = ''/''\<rparr>,
      \<lparr>id_col = 2, gdrive_id = Some ''idA'', path = ''a/''\<rparr>,
      \<lparr>id_col = 3, gdrive_id = Some ''idB'', path = ''a/b/''\<rparr>,
      \<lparr>id_col = 4, gdrive_id = Some ''idB'', path = ''a//c/''\<rparr>] \<and>
   committed_gdrive_ids (snd (updateDatabaseOnEdit index_first ''idB'' ''a//c'' two_paths_world)) =
     gdrive_ids (snd (updateDatabaseOnEdit index_first ''idB'' ''a//c'' two_paths_world)) \<and>
   updateDatabaseOnEdit index_first ''idOther'' ''a//c'' two_paths_world = (Inr (), two_paths_world) \<and>
   (let sqlCheckPath = (if last ''a//c'' = CHR ''/'' then ''a//c'' else ''a//c'' @ ''/'') in
      ((\<forall>r \<in> set (gdrive_ids two_paths_world). gdrive_id r \<noteq> Some ''idB'') \<longrightarrow>
         updateDatabaseOnEdit index_first ''idB'' ''a//c'' two_paths_world = (Inr (), two_paths_world)) \<and>
      ((\<exists>r \<in> set (gdrive_ids two_paths_world). gdrive_id r = Some ''idB'') \<longrightarrow>
         (\<exists>r \<in> set (gdrive_ids two_paths_world).
            gdrive_id r = Some ''idB'' \<and>
            index_first (filter (\<lambda>r. gdrive_id r = Some ''idB'') (gdrive_ids two_paths_world)) = Some r \<and>
            (if path r \<noteq> sqlCheckPath \<and>
                (\<exists>r' \<in> set (gdrive_ids two_paths_world).
                   r' \<noteq> r \<and> gdrive_id r' = Some ''idB'' \<and> path r' = sqlCheckPath)
             then fst (updateDatabaseOnEdit index_first ''idB'' ''a//c'' two_paths_world)
                    = Inl IntegrityError \<and>
                  committed_gdrive_ids
                    (snd (updateDatabaseOnEdit index_first ''idB'' ''a//c'' two_paths_world))
                    = committed_gdrive_ids two_paths_world
             else updateDatabaseOnEdit index_first ''idB'' ''a//c'' two_paths_world =
                    (Inr (),
                     two_paths_world\<lparr>gdrive_ids :=
                         map (\<lambda>x. if x = r then x\<lparr>path := sqlCheckPath\<rparr> else x)
                           (gdrive_ids two_paths_world),
                       committed_gdrive_ids :=
                         map (\<lambda>x. if x = r then x\<lparr>path := sqlCheckPath\<rparr> else x)
                           (gdrive_ids two_paths_world),
                       committed_permissions_added := permissions_added two_paths_world\<rparr>)))))"
proof -
  have a: "''a//c'' \<noteq> []" by simp
  have d: "distinct (map id_col (gdrive_ids two_paths_world))"
    by (simp add: two_paths_rows)
  have none: "\<forall>r \<in> set (gdrive_ids two_paths_world). gdrive_id r \<noteq> Some ''idOther''"
    by (simp add: two_paths_rows)
  have c1: "fst (updateDatabaseOnEdit index_first ''idB'' ''a//c'' two_paths_world) = Inr ()"
    by code_simp
  have c2: "gdrive_ids (snd (updateDatabaseOnEdit index_first ''idB'' ''a//c'' two_paths_world)) =
     [\<lparr>id_col = 1, gdrive_id = Some ''idBooks'', path = ''/''\<rparr>,
      \<lparr>id_col = 2, gdrive_id = Some ''idA'', path = ''a/''\<rparr>,
      \<lparr>id_col = 3, gdrive_id = Some ''idB'', path = ''a/b/''\<rparr>,
      \<lparr>id_col = 4, gdrive_id = Some ''idB'', path = ''a//c/''\<rparr>]"
    by code_simp
  have c3: "committed_gdrive_ids (snd (updateDatabaseOnEdit index_first ''idB'' ''a//c'' two_paths_world)) =
     gdrive_ids (snd (updateDatabaseOnEdit index_first ''idB'' ''a//c'' two_paths_world))"
    by code_simp
  have c4: "updateDatabaseOnEdit index_first ''idOther'' ''a//c'' two_paths_world = (Inr (), two_paths_world)"
    using updateDatabaseOnEdit_rename [OF a d index_first_None index_first_Some, of "''idOther''"] none
    unfolding Let_def by blast
  show ?thesis
    by (intro conjI c1 c2 c3 c4
        updateDatabaseOnEdit_rename [OF a d index_first_None index_first_Some, of "''idB''"])
qed


section \<open>Resolution against the cache\<close>

text \<open>
  Claim C8, at the input where the code departs from it: on an empty cache, with a drive
  that has no folder \<open>Books\<close> under its root, \<open>getEbooksFolderId\<close> logs the error and
  then merges and commits a row for \<open>/\<close> whose \<open>gdrive_id\<close> is \<open>None\<close>.
\<close>

theorem root_discovery_stores_null_row:
  "getEbooksFolderId ''Books'' empty_drive empty_world =
     (Inr None,
      empty_world\<lparr>gdrive_ids := [\<lparr>id_col = 1, gdrive_id = None, path = ''/''\<rparr>],
                  committed_gdrive_ids := [\<lparr>id_col = 1, gdrive_id = None, path = ''/''\<rparr>],
                  log := [''Error gDrive, root ID not found''],
                  list_queries := [folder_query (Some ''root'') ''Books'']\<rparr>)"
  by (simp add: getEbooksFolderId_def getEbooksFolder_def getFolderInFolder_def first_def
      empty_drive_def empty_world_def commit_def merge_GdriveId_def next_id_def Let_def)

text \<open>
  Claim C3 as stated fails: with a row for \<open>Author1/\<close> in the cache and none for \<open>/\<close>,
  \<open>getFolderId\<close> returns the row's id, but only after \<open>getEbooksFolderId\<close> has sent the
  root query to the drive and added a row for \<open>/\<close>.
\<close>

theorem exact_match_still_queries_root:
  "first (filter (\<lambda>r. path r = ''Author1/'') (gdrive_ids author1_only_world))
     = Some \<lparr>id_col = 1, gdrive_id = Some ''idAuthor1'', path = ''Author1/''\<rparr> \<and>
   fst (getFolderId ''Books'' ''Author1/'' books_author1_drive author1_only_world)
     = Inr (Some ''idAuthor1'') \<and>
   list_queries (snd (getFolderId ''Books'' ''Author1/'' books_author1_drive author1_only_world))
     = [folder_query (Some ''root'') ''Books''] \<and>
   map path (gdrive_ids (snd (getFolderId ''Books'' ''Author1/'' books_author1_drive author1_only_world)))
     = [''Author1/'', ''/'']"
  by code_simp

text \<open>
  Claim C3, amended. For a non-empty path, when the cache also holds a row for \<open>/\<close>
  and the path with its closing \<open>/\<close> has a row, \<open>getFolderId\<close> returns the \<open>gdrive_id\<close> of the
  first such row and leaves the whole state as it was: no query is sent, nothing is
  logged, no row is written.
\<close>

theorem exact_match_with_root_row:
  assumes "path' \<noteq> []"
    and "\<exists>r \<in> set (gdrive_ids w). path r = ''/''"
    and "first (filter (\<lambda>r. path r = (if last path' = CHR ''/'' then path' else path' @ ''/''))
           (gdrive_ids w)) = Some hit"
  shows "getFolderId config_google_drive_folder path' drive w = (Inr (gdrive_id hit), w)"
proof -
  obtain root where "first (filter (\<lambda>r. path r = ''/'') (gdrive_ids w)) = Some root"
    using assms(2) first_filter_None [of "\<lambda>r. path r = ''/''" "gdrive_ids w"] by auto
  then have "getEbooksFolderId config_google_drive_folder drive w = (Inr (gdrive_id root), w)"
    by (simp add: getEbooksFolderId_def)
  then show ?thesis using assms(1,3) by (simp add: getFolderId_def)
qed

theorem exact_match_with_root_row_witness:
  "getFolderId ''Books'' ''Author1'' failing_drive books_author1_world =
     (Inr (Some ''idAuthor1''), books_author1_world)"
proof -
  have a: "''Author1'' \<noteq> []" by simp
  have rows: "gdrive_ids books_author1_world =
      [\<lparr>id_col = 1, gdrive_id = Some ''idBooks'', path = ''/''\<rparr>,
       \<lparr>id_col = 2, gdrive_id = Some ''idAuthor1'', path = ''Author1/''\<rparr>]"
    by (simp add: books_author1_world_def empty_world_def)
  have b: "\<exists>r \<in> set (gdrive_ids books_author1_world). path r = ''/''"
    by (simp add: rows)
  have c: "first (filter (\<lambda>r. path r = (if last ''Author1'' = CHR ''/'' then ''Author1'' else ''Author1'' @ ''/''))
           (gdrive_ids books_author1_world))
        = Some \<lparr>id_col = 2, gdrive_id = Some ''idAuthor1'', path = ''Author1/''\<rparr>"
    by (simp add: rows first_def)
  show ?thesis
    using exact_match_with_root_row [OF a b c, of "''Books''" failing_drive] by simp
qed

text \<open>
  Claim C2 as stated fails. From the empty cache the first resolution of \<open>Author1/\<close>
  sends two queries, the root query for \<open>Books\<close> and a query for \<open>Author1\<close> under the
  parent \<open>None\<close> (\<open>getEbooksFolderId\<close> has stored the root but returned nothing), leaves
  the single row \<open>/\<close> and returns \<open>None\<close>; the second resolution sends one more query
  and leaves the rows \<open>/\<close> and \<open>Author1/\<close>. No row \<open>Books/\<close> or \<open>Books/Author1/\<close>
  is ever written.
\<close>

theorem scenario_as_run:
  "fst first_resolution = Inr None \<and>
   list_queries (snd first_resolution) =
     [folder_query (Some ''root'') ''Books'', folder_query None ''Author1''] \<and>
   map path (gdrive_ids (snd first_resolution)) = [''/''] \<and>
   fst second_resolution = Inr (Some ''idAuthor1'') \<and>
   list_queries (snd second_resolution) =
     list_queries (snd first_resolution) @ [folder_query (Some ''idBooks'') ''Author1''] \<and>
   map path (gdrive_ids (snd second_resolution)) = [''/'', ''Author1/'']"
  by code_simp

text \<open>
  Claim C2, amended. From the empty cache the root resolution sends one query and stores
  the id of \<open>Books\<close> under \<open>/\<close>. With that row in the cache, resolving \<open>Author1/\<close> sends
  exactly one more query, returns the id of \<open>Author1\<close> and leaves exactly the two rows
  \<open>/\<close> and \<open>Author1/\<close>, committed; resolving \<open>Author1/\<close> once more returns the same id,
  sends no query and changes nothing.
\<close>

theorem scenario_from_root_row:
  "snd root_resolution =
     empty_world\<lparr>gdrive_ids := [\<lparr>id_col = 1, gdrive_id = Some ''idBooks'', path = ''/''\<rparr>],
                 committed_gdrive_ids := [\<lparr>id_col = 1, gdrive_id = Some ''idBooks'', path = ''/''\<rparr>],
                 list_queries := [folder_query (Some ''root'') ''Books'']\<rparr> \<and>
   getFolderId ''Books'' ''Author1/'' books_author1_drive (snd root_resolution) =
     (Inr (Some ''idAuthor1''),
      books_author1_world\<lparr>list_queries :=
        [folder_query (Some ''root'') ''Books'', folder_query (Some ''idBooks'') ''Author1'']\<rparr>) \<and>
   getFolderId ''Books'' ''Author1/'' books_author1_drive
      (books_author1_world\<lparr>list_queries :=
        [folder_query (Some ''root'') ''Books'', folder_query (Some ''idBooks'') ''Author1'']\<rparr>) =
     (Inr (Some ''idAuthor1''),
      books_author1_world\<lparr>list_queries :=
        [folder_query (Some ''root'') ''Books'', folder_query (Some ''idBooks'') ''Author1'']\<rparr>)"
  by code_simp

section \<open>Chunked download: the stream\<close>

lemma stream_prefix:
  assumes "\<forall>byte \<in> set s. 2 \<le> length byte"
    and "stream request url s = (chunks, ending, warnings)"
  shows "\<exists>k \<le> length s.
      length chunks = k \<and>
      (\<forall>i < k. request url (range_header (s ! i)) = Inr (206, chunks ! i)) \<and>
      (k = length s \<longrightarrow> ending = Inr () \<and> warnings = []) \<and>
      (k < length s \<longrightarrow>
         (case request url (range_header (s ! k)) of
            Inr (status, content) \<Rightarrow>
              status \<noteq> 206 \<and> ending = Inr () \<and> warnings = [''An error occurred: '' @ str_int status]
          | Inl e \<Rightarrow> ending = Inl e \<and> warnings = []))"
  using assms
proof (induction s arbitrary: chunks ending warnings)
  case Nil
  then show ?case by simp
next
  case (Cons byte s)
  have len: "\<not> length byte < 2" using Cons.prems(1) by simp
  show ?case
  proof (cases "request url (range_header byte)")
    case (Inl e)
    with Cons.prems(2) len have "chunks = [] \<and> ending = Inl e \<and> warnings = []" by auto
    with Inl show ?thesis by (intro exI [of _ 0]) simp
  next
    case (Inr r)
    obtain status content where r: "r = (status, content)" by (cases r)
    show ?thesis
    proof (cases "status = 206")
      case False
      with Cons.prems(2) len Inr r
      have "chunks = [] \<and> ending = Inr () \<and> warnings = [''An error occurred: '' @ str_int status]"
        by auto
      with Inr r False show ?thesis by (intro exI [of _ 0]) simp
    next
      case True
      obtain cs e ws where rest: "stream request url s = (cs, e, ws)"
        by (cases "stream request url s") auto
      with Cons.prems(2) len Inr r True
      have eq: "chunks = content # cs" "ending = e" "warnings = ws" by auto
      from Cons.IH [OF _ rest] Cons.prems(1)
      obtain k where k: "k \<le> length s" "length cs = k"
        "\<forall>i < k. request url (range_header (s ! i)) = Inr (206, cs ! i)"
        "k = length s \<longrightarrow> e = Inr () \<and> ws = []"
        "k < length s \<longrightarrow>
         (case request url (range_header (s ! k)) of
            Inr (status, content) \<Rightarrow>
              status \<noteq> 206 \<and> e = Inr () \<and> ws = [''An error occurred: '' @ str_int status]
          | Inl ex \<Rightarrow> e = Inl ex \<and> ws = [])"
        by auto
      have all: "\<forall>i < Suc k. request url (range_header ((byte # s) ! i)) = Inr (206, (content # cs) ! i)"
        using k(3) Inr r True by (auto simp: nth_Cons')
      show ?thesis
        unfolding eq using k(1,2,4,5) all
        by (intro exI [of _ "Suc k"]) (auto split: sum.splits)
    qed
  qed
qed

lemma partial_megabyte:
  "\<exists>s. partial n (1024 * 1024) = Inr s \<and> (\<forall>byte \<in> set s. 2 \<le> length byte)"
  by (simp add: partial_def partial_loop_map)

text \<open>
  Claim C5. \<open>do_gdrive_download\<close> on a file whose size is known requests the ranges of
  \<open>partial\<close> in order. There is a number \<open>k\<close> of ranges such that the chunks yielded are
  exactly the contents of the first \<open>k\<close> requests, each answered with status 206. When
  \<open>k\<close> is the number of ranges the stream ends with no warning. Otherwise request \<open>k\<close>
  is the first not answered with 206: when it returned another status the stream ends
  there without raising, with one warning logged and no further chunk; when the
  request itself raised, that exception ends the stream.
\<close>

theorem stream_stops_at_first_non_206:
  assumes "fileSize df = Some n"
  shows "\<exists>s chunks ending warnings.
      partial n (1024 * 1024) = Inr s \<and>
      do_gdrive_download df request = Inr (chunks, ending, warnings) \<and>
      (\<exists>k \<le> length s.
         length chunks = k \<and>
         (\<forall>i < k. request (downloadUrl df) (range_header (s ! i)) = Inr (206, chunks ! i)) \<and>
         (k = length s \<longrightarrow> ending = Inr () \<and> warnings = []) \<and>
         (k < length s \<longrightarrow>
            (case request (downloadUrl df) (range_header (s ! k)) of
               Inr (status, content) \<Rightarrow>
                 status \<noteq> 206 \<and> ending = Inr () \<and>
                 warnings = [''An error occurred: '' @ str_int status]
             | Inl e \<Rightarrow> ending = Inl e \<and> warnings = [])))"
proof -
  obtain s where s: "partial n (1024 * 1024) = Inr s" "\<forall>byte \<in> set s. 2 \<le> length byte"
    using partial_megabyte by blast
  obtain chunks ending warnings where
    st: "stream request (downloadUrl df) s = (chunks, ending, warnings)"
    by (cases "stream request (downloadUrl df) s") auto
  have "do_gdrive_download df request = Inr (chunks, ending, warnings)"
    using assms s(1) st by (simp add: do_gdrive_download_def)
  then show ?thesis using s(1) stream_prefix [OF s(2) st] by blast
qed

lemma big_file_ranges: "partial 2500000 1048576 = Inr [[0, 1048575], [1048576, 2097151], [2097152, 2499999]]"
  by (simp add: partial_def range_py.simps)

lemma first_range_header: "range_header [0, 1048575] = ''bytes=0-1048575''"
  by (simp add: range_header_def str_int_def digits.simps)

lemma second_range_header: "range_header [1048576, 2097151] = ''bytes=1048576-2097151''"
  by (simp add: range_header_def str_int_def digits.simps)

lemma status_500_text: "str_int 500 = ''500''"
  by (simp add: str_int_def digits.simps)

lemma big_file_download:
  "do_gdrive_download big_file second_range_refused =
     Inr ([''first chunk''], Inr (), [''An error occurred: 500''])"
  by (simp add: do_gdrive_download_def big_file_def big_file_ranges first_range_header
      second_range_header status_500_text second_range_refused_def)


theorem stream_stops_at_first_non_206_witness:
  "fileSize big_file = Some 2500000 \<and>
   partial 2500000 (1024 * 1024) = Inr [[0, 1048575], [1048576, 2097151], [2097152, 2499999]] \<and>
   do_gdrive_download big_file second_range_refused =
     Inr ([''first chunk''], Inr (), [''An error occurred: 500'']) \<and>
   (\<exists>s chunks ending warnings.
      partial 2500000 (1024 * 1024) = Inr s \<and>
      do_gdrive_download big_file second_range_refused = Inr (chunks, ending, warnings) \<and>
      (\<exists>k \<le> length s.
         length chunks = k \<and>
         (\<forall>i < k. second_range_refused (downloadUrl big_file) (range_header (s ! i))
                     = Inr (206, chunks ! i)) \<and>
         (k = length s \<longrightarrow> ending = Inr () \<and> warnings = []) \<and>
         (k < length s \<longrightarrow>
            (case second_range_refused (downloadUrl big_file) (range_header (s ! k)) of
               Inr (status, content) \<Rightarrow>
                 status \<noteq> 206 \<and> ending = Inr () \<and>
                 warnings = [''An error occurred: '' @ str_int status]
             | Inl e \<Rightarrow> ending = Inl e \<and> warnings = []))))"
proof -
  have a: "fileSize big_file = Some 2500000" by (simp add: big_file_def)
  have b: "partial 2500000 (1024 * 1024) = Inr [[0, 1048575], [1048576, 2097151], [2097152, 2499999]]"
    using big_file_ranges by simp
  from stream_stops_at_first_non_206 [OF a, of second_range_refused]
  have c: "\<exists>s chunks ending warnings.
      partial 2500000 (1024 * 1024) = Inr s \<and>
      do_gdrive_download big_file second_range_refused = Inr (chunks, ending, warnings) \<and>
      (\<exists>k \<le> length s.
         length chunks = k \<and>
         (\<forall>i < k. second_range_refused (downloadUrl big_file) (range_header (s ! i))
                     = Inr (206, chunks ! i)) \<and>
         (k = length s \<longrightarrow> ending = Inr () \<and> warnings = []) \<and>
         (k < length s \<longrightarrow>
            (case second_range_refused (downloadUrl big_file) (range_header (s ! k)) of
               Inr (status, content) \<Rightarrow>
                 status \<noteq> 206 \<and> ending = Inr () \<and>
                 warnings = [''An error occurred: '' @ str_int status]
             | Inl e \<Rightarrow> ending = Inl e \<and> warnings = [])))" .
  show ?thesis
    by (intro conjI a b big_file_download c)
qed

section \<open>Schema migration: the second run\<close>

lemma migrate_loop_skip:
  "\<forall>sql \<in> set sqls. contains ''CREATE TABLE gdrive_ids'' sql \<longrightarrow> \<not> contains ''UNIQUE (gdrive_id)'' sql
   \<Longrightarrow> migrate_loop eng sqls db = Inr db"
  by (induction sqls) (simp_all add: Let_def)

text \<open>
  Claim C6. On a database that has the table \<open>permissions_added\<close> (a first run creates
  it) and in which no definition of the table \<open>gdrive_ids\<close> holds the old constraint
  \<open>UNIQUE (gdrive_id)\<close>, \<open>migrate\<close> returns without error and with the database as it
  was, whatever the engine does on a statement: none is executed, so no second table
  is created and no row is copied.
\<close>

theorem migrate_again_is_identity:
  assumes "has_table eng db ''permissions_added''"
    and "\<forall>sql \<in> set (select_table_sql eng db).
           contains ''CREATE TABLE gdrive_ids'' sql \<longrightarrow> \<not> contains ''UNIQUE (gdrive_id)'' sql"
  shows "migrate eng db = Inr db"
  using assms by (simp add: migrate_def and_then_def migrate_loop_skip)

theorem migrate_again_is_identity_witness:
  "has_table catalog_engine migrated_catalog ''permissions_added'' \<and>
   contains ''CREATE TABLE gdrive_ids'' (snd (migrated_catalog ! 1)) \<and>
   contains ''UNIQUE (gdrive_id, path)'' (snd (migrated_catalog ! 1)) \<and>
   \<not> contains ''UNIQUE (gdrive_id)'' (snd (migrated_catalog ! 1)) \<and>
   migrate catalog_engine migrated_catalog = Inr migrated_catalog"
proof -
  have a: "has_table catalog_engine migrated_catalog ''permissions_added''"
    by (simp add: catalog_engine_def migrated_catalog_def)
  have b: "\<forall>sql \<in> set (select_table_sql catalog_engine migrated_catalog).
           contains ''CREATE TABLE gdrive_ids'' sql \<longrightarrow> \<not> contains ''UNIQUE (gdrive_id)'' sql"
    by (simp add: catalog_engine_def migrated_catalog_def)
  have c: "contains ''CREATE TABLE gdrive_ids'' (snd (migrated_catalog ! 1))"
    by (simp add: migrated_catalog_def)
  have d: "contains ''UNIQUE (gdrive_id, path)'' (snd (migrated_catalog ! 1))"
    by (simp add: migrated_catalog_def)
  have e: "\<not> contains ''UNIQUE (gdrive_id)'' (snd (migrated_catalog ! 1))"
    by (simp add: migrated_catalog_def)
  show ?thesis using migrate_again_is_identity [OF a b] a c d e by simp
qed

section \<open>Failure of the root query\<close>

lemma first_filter_Some: "first (filter P xs) = Some r \<Longrightarrow> r \<in> set xs \<and> P r"
  by (induction xs) (auto simp: first_def split: if_splits)

lemma join_py_nonempty: "x \<in> set xs \<Longrightarrow> x \<noteq> [] \<Longrightarrow> join_py sep xs \<noteq> []"
  by (induction sep xs rule: join_py.induct) auto

lemma enumerate_py_index: "(i, x) \<in> set (enumerate_py s) \<Longrightarrow> i < length s \<and> s ! i = x"
  by (auto simp: enumerate_py_def in_set_zip)

lemma root_discovery_failure:
  assumes "first (filter (\<lambda>r. path r = ''/'') (gdrive_ids w)) = None"
    and "ListFile drive (folder_query (Some ''root'') cfg) = Inl e"
  shows "getEbooksFolderId cfg drive w =
     (Inr None,
      commit (merge_GdriveId None ''/''
        (w\<lparr>list_queries := list_queries w @ [folder_query (Some ''root'') cfg],
           log := log w @ [''Error gDrive, root ID not found'']\<rparr>)))"
  using assms
  by (simp add: getEbooksFolderId_def getEbooksFolder_def getFolderInFolder_def Let_def)

lemma loop_without_parent:
  assumes "\<forall>(i, x) \<in> set ixs. i < length s \<and> s ! i = x"
    and "\<forall>r \<in> set (gdrive_ids w). gdrive_id r = None"
    and "\<forall>x. ListFile drive (folder_query None x) = Inr []"
  shows "\<exists>w'. getFolderId_loop s drive ixs None False w = (Inr (None, False), w') \<and>
            log w' = log w \<and> gdrive_ids w' = gdrive_ids w"
  using assms(1,2)
proof (induction ixs arbitrary: w)
  case Nil
  then show ?case by simp
next
  case (Cons ix ixs)
  obtain i x where ix: "ix = (i, x)" by (cases ix)
  have idx: "i < length s" "s ! i = x" using Cons.prems(1) ix by auto
  have rest: "\<forall>(i, x) \<in> set ixs. i < length s \<and> s ! i = x" using Cons.prems(1) by simp
  show ?case
  proof (cases "x = []")
    case True
    then show ?thesis using Cons.IH [OF rest Cons.prems(2)] ix by simp
  next
    case False
    have "x \<in> set (take (Suc i) s)"
      using idx by (auto simp: in_set_conv_nth intro!: exI [of _ i])
    then have j: "join_py ''/'' (take (Suc i) s) \<noteq> []"
      using False by (rule join_py_nonempty)
    define cp where "cp = (if last (join_py ''/'' (take (Suc i) s)) \<noteq> CHR ''/''
       then join_py ''/'' (take (Suc i) s) @ ''/'' else join_py ''/'' (take (Suc i) s))"
    have step: "getFolderId_loop s drive (ix # ixs) None False w =
        (case first (filter (\<lambda>r. path r = cp) (gdrive_ids w)) of
           Some storedPathName \<Rightarrow> getFolderId_loop s drive ixs (gdrive_id storedPathName) False w
         | None \<Rightarrow>
             (case getFolderInFolder None x drive w of
                (Inl e, w') \<Rightarrow> (Inl e, w')
              | (Inr None, w') \<Rightarrow> (Inr (None, False), w')
              | (Inr (Some currentFolder), w') \<Rightarrow>
                  getFolderId_loop s drive ixs (Some (file_id currentFolder)) True
                    (merge_GdriveId (Some (file_id currentFolder)) cp w')))"
      using False j unfolding cp_def by (simp add: ix Let_def split del: if_split)
    show ?thesis
    proof (cases "first (filter (\<lambda>r. path r = cp) (gdrive_ids w))")
      case None
      then show ?thesis
        using assms(3) by (simp add: step getFolderInFolder_def Let_def)
    next
      case (Some stored)
      then have "gdrive_id stored = None"
        using first_filter_Some [OF Some] Cons.prems(2) by simp
      then show ?thesis
        using Some Cons.IH [OF rest Cons.prems(2)] by (simp add: step)
    qed
  qed
qed

text \<open>
  Claim C4 as stated fails for \<open>getFolderId\<close>. With a drive that raises on every call and
  an empty cache, the failure of the root query is logged and swallowed, but the walk
  then queries the drive again and that exception leaves \<open>getFolderId\<close>. With a drive that
  raises on the root query only and a cache that holds \<open>Author1/\<close> but not \<open>/\<close>, the
  failure is logged and \<open>getFolderId\<close> returns the cached id, not \<open>None\<close>.
\<close>

theorem later_failure_propagates_and_hit_is_found:
  "fst (getFolderId ''Books'' ''Author1/'' failing_drive empty_world) = Inl (ApiError ''unreachable'') \<and>
   log (snd (getFolderId ''Books'' ''Author1/'' failing_drive empty_world))
     = [''Error gDrive, root ID not found''] \<and>
   fst (getFolderId ''Books'' ''Author1/'' root_failing_drive author1_only_world)
     = Inr (Some ''idAuthor1'') \<and>
   list_queries (snd (getFolderId ''Books'' ''Author1/'' root_failing_drive author1_only_world))
     = [folder_query (Some ''root'') ''Books''] \<and>
   log (snd (getFolderId ''Books'' ''Author1/'' root_failing_drive author1_only_world))
     = [''Error gDrive, root ID not found'']"
  by code_simp

text \<open>
  Claim C4, amended. When the cache has no row for \<open>/\<close> and the root query raises,
  \<open>getEbooksFolderId\<close> logs the error, raises nothing and returns \<open>None\<close>. \<open>getFolderId\<close>
  goes on from there: on an empty cache, for a non-empty path, when the queries under the
  parent \<open>None\<close> find nothing, it returns \<open>None\<close> as well, with the error logged.
\<close>

theorem root_failure_is_logged_not_raised:
  assumes "first (filter (\<lambda>r. path r = ''/'') (gdrive_ids w)) = None"
    and "ListFile drive (folder_query (Some ''root'') config_google_drive_folder) = Inl e"
  shows
    "(\<exists>w'. getEbooksFolderId config_google_drive_folder drive w = (Inr None, w') \<and>
           log w' = log w @ [''Error gDrive, root ID not found'']) \<and>
     (gdrive_ids w = [] \<and> path' \<noteq> [] \<and> (\<forall>x. ListFile drive (folder_query None x) = Inr []) \<longrightarrow>
        (\<exists>w'. getFolderId config_google_drive_folder path' drive w = (Inr None, w') \<and>
              log w' = log w @ [''Error gDrive, root ID not found'']))"
proof (intro conjI impI)
  let ?w0 = "w\<lparr>list_queries := list_queries w @ [folder_query (Some ''root'') config_google_drive_folder],
           log := log w @ [''Error gDrive, root ID not found'']\<rparr>"
  let ?w1 = "commit (merge_GdriveId None ''/'' ?w0)"
  have root: "getEbooksFolderId config_google_drive_folder drive w = (Inr None, ?w1)"
    using assms by (rule root_discovery_failure)
  have log1: "log ?w1 = log w @ [''Error gDrive, root ID not found'']"
    by (simp add: commit_def merge_GdriveId_def)
  show "\<exists>w'. getEbooksFolderId config_google_drive_folder drive w = (Inr None, w') \<and>
           log w' = log w @ [''Error gDrive, root ID not found'']"
    using root log1 by blast
  assume h: "gdrive_ids w = [] \<and> path' \<noteq> [] \<and> (\<forall>x. ListFile drive (folder_query None x) = Inr [])"
  have rows1: "gdrive_ids ?w1 = [\<lparr>id_col = 1, gdrive_id = None, path = ''/''\<rparr>]"
    using h by (simp add: commit_def merge_GdriveId_def next_id_def)
  have nulls: "\<forall>r \<in> set (gdrive_ids ?w1). gdrive_id r = None"
    by (simp only: rows1) simp
  define sp where "sp = (if last path' = CHR ''/'' then path' else path' @ ''/'')"
  define s where "s = split_py (CHR ''/'') path'"
  have idx: "\<forall>(i, x) \<in> set (enumerate_py s). i < length s \<and> s ! i = x"
    using enumerate_py_index by fastforce
  from loop_without_parent [OF idx nulls] h
  obtain w2 where w2: "getFolderId_loop s drive (enumerate_py s) None False ?w1 = (Inr (None, False), w2)"
    "log w2 = log ?w1" by blast
  show "\<exists>w'. getFolderId config_google_drive_folder path' drive w = (Inr None, w') \<and>
           log w' = log w @ [''Error gDrive, root ID not found'']"
  proof (cases "first (filter (\<lambda>r. path r = sp) (gdrive_ids ?w1))")
    case None
    then have "getFolderId config_google_drive_folder path' drive w = (Inr None, w2)"
      using h root w2(1) unfolding getFolderId_def sp_def s_def by (simp add: Let_def)
    then show ?thesis using w2(2) log1 by simp
  next
    case (Some hit)
    then have "gdrive_id hit = None" using first_filter_Some [OF Some] nulls by blast
    then have "getFolderId config_google_drive_folder path' drive w = (Inr None, ?w1)"
      using h root Some unfolding getFolderId_def sp_def by (simp add: Let_def)
    then show ?thesis using log1 by blast
  qed
qed

theorem root_failure_is_logged_not_raised_witness:
  "getEbooksFolderId ''Books'' root_failing_drive empty_world =
     (Inr None,
      empty_world\<lparr>gdrive_ids := [\<lparr>id_col = 1, gdrive_id = None, path = ''/''\<rparr>],
                  committed_gdrive_ids := [\<lparr>id_col = 1, gdrive_id = None, path = ''/''\<rparr>],
                  log := [''Error gDrive, root ID not found''],
                  list_queries := [folder_query (Some ''root'') ''Books'']\<rparr>) \<and>
   (\<exists>w'. getFolderId ''Books'' ''Author1/'' root_failing_drive empty_world = (Inr None, w') \<and>
         log w' = log empty_world @ [''Error gDrive, root ID not found''])"
proof -
  have a: "first (filter (\<lambda>r. path r = ''/'') (gdrive_ids empty_world)) = None"
    by (simp add: empty_world_def first_def)
  have b: "ListFile root_failing_drive (folder_query (Some ''root'') ''Books'') = Inl (ApiError ''unreachable'')"
    by (simp add: root_failing_drive_def)
  have c: "gdrive_ids empty_world = [] \<and> ''Author1/'' \<noteq> [] \<and>
        (\<forall>x. ListFile root_failing_drive (folder_query None x) = Inr [])"
    by (simp add: empty_world_def root_failing_drive_def folder_query_def apos_def str_of_def Let_def)
  have d: "getEbooksFolderId ''Books'' root_failing_drive empty_world =
     (Inr None,
      empty_world\<lparr>gdrive_ids := [\<lparr>id_col = 1, gdrive_id = None, path = ''/''\<rparr>],
                  committed_gdrive_ids := [\<lparr>id_col = 1, gdrive_id = None, path = ''/''\<rparr>],
                  log := [''Error gDrive, root ID not found''],
                  list_queries := [folder_query (Some ''root'') ''Books'']\<rparr>)"
    by code_simp
  show ?thesis
    using root_failure_is_logged_not_raised [OF a b, of "''Author1/''"] c d by blast
qed

section \<open>The public permission\<close>

lemma getFolderInFolder_permissions:
  "getFolderInFolder parentId folderName drive w = (r, w') \<Longrightarrow>
   permissions_added w' = permissions_added w \<and> permission_calls w' = permission_calls w"
  by (auto simp: getFolderInFolder_def Let_def split: sum.splits if_splits)

lemma getFile_permissions:
  "getFile pathId fileName drive w = (r, w') \<Longrightarrow>
   permissions_added w' = permissions_added w \<and> permission_calls w' = permission_calls w"
  by (auto simp: getFile_def Let_def split: sum.splits if_splits)

lemma merge_commit_permissions:
  "permissions_added (merge_GdriveId gid p w) = permissions_added w"
  "permission_calls (merge_GdriveId gid p w) = permission_calls w"
  "permissions_added (commit w) = permissions_added w"
  "permission_calls (commit w) = permission_calls w"
  by (simp_all add: merge_GdriveId_def commit_def)

lemma getEbooksFolderId_permissions:
  assumes "getEbooksFolderId cfg drive w = (r, w')"
  shows "permissions_added w' = permissions_added w \<and> permission_calls w' = permission_calls w"
proof (cases "first (filter (\<lambda>r. path r = ''/'') (gdrive_ids w))")
  case (Some a)
  then show ?thesis using assms by (simp add: getEbooksFolderId_def)
next
  case None
  obtain r0 w0 where g: "getFolderInFolder (Some ''root'') cfg drive w = (r0, w0)"
    by (cases "getFolderInFolder (Some ''root'') cfg drive w") auto
  note p = getFolderInFolder_permissions [OF g]
  show ?thesis
    using assms None g p
    by (auto simp: getEbooksFolderId_def getEbooksFolder_def merge_commit_permissions
        split: sum.splits option.splits)
qed

lemma getFolderId_loop_permissions:
  "getFolderId_loop s drive ixs cur ch w = (r, w') \<Longrightarrow>
   permissions_added w' = permissions_added w \<and> permission_calls w' = permission_calls w"
proof (induction s drive ixs cur ch w rule: getFolderId_loop.induct)
  case (1 s drive cur ch w)
  then show ?case by simp
next
  case (2 s drive i x rest cur ch w)
  show ?case
  proof (cases "length x > 0")
    case False
    then show ?thesis using 2 by simp
  next
    case True
    define joined where "joined = join_py ''/'' (take (Suc i) s)"
    define cp where "cp = (if last joined \<noteq> CHR ''/'' then joined @ ''/'' else joined)"
    show ?thesis
    proof (cases "joined = []")
      case e: True
      then show ?thesis using 2(4) True by (simp add: joined_def Let_def)
    next
      case ne: False
      have step: "getFolderId_loop s drive ((i, x) # rest) cur ch w =
        (case first (filter (\<lambda>r. path r = cp) (gdrive_ids w)) of
           Some storedPathName \<Rightarrow> getFolderId_loop s drive rest (gdrive_id storedPathName) ch w
         | None \<Rightarrow>
             (case getFolderInFolder cur x drive w of
                (Inl e, w') \<Rightarrow> (Inl e, w')
              | (Inr None, w') \<Rightarrow> (Inr (None, ch), w')
              | (Inr (Some currentFolder), w') \<Rightarrow>
                  getFolderId_loop s drive rest (Some (file_id currentFolder)) True
                    (merge_GdriveId (Some (file_id currentFolder)) cp w')))"
        using True ne unfolding cp_def joined_def by (simp add: Let_def split del: if_split)
      show ?thesis
      proof (cases "first (filter (\<lambda>r. path r = cp) (gdrive_ids w))")
        case (Some st)
        have "getFolderId_loop s drive rest (gdrive_id st) ch w = (r, w')"
          using 2(4) Some by (simp only: step option.case)
        then show ?thesis
          using 2(2) [OF True joined_def ne cp_def Some] by simp
      next
        case None
        obtain r0 w0 where g: "getFolderInFolder cur x drive w = (r0, w0)"
          by (cases "getFolderInFolder cur x drive w") auto
        note p = getFolderInFolder_permissions [OF g]
        show ?thesis
        proof (cases r0)
          case (Inl e)
          then show ?thesis using 2(4) None g p unfolding step by simp
        next
          case (Inr fo)
          show ?thesis
          proof (cases fo)
            case n: None
            then show ?thesis using 2(4) None g p Inr unfolding step by simp
          next
            case (Some f)
            have call: "getFolderId_loop s drive rest (Some (file_id f)) True
                    (merge_GdriveId (Some (file_id f)) cp w0) = (r, w')"
              using 2(4) None g Inr Some unfolding step by simp
            have "permissions_added w' = permissions_added (merge_GdriveId (Some (file_id f)) cp w0) \<and>
                permission_calls w' = permission_calls (merge_GdriveId (Some (file_id f)) cp w0)"
              by (rule 2(1) [OF True joined_def ne cp_def None g [symmetric] Inr Some call])
            then show ?thesis using p by (simp add: merge_commit_permissions)
          qed
        qed
      qed
    qed
  qed
qed

lemma getFolderId_permissions:
  assumes "getFolderId cfg p drive w = (r, w')"
  shows "permissions_added w' = permissions_added w \<and> permission_calls w' = permission_calls w"
proof -
  obtain r1 w1 where root: "getEbooksFolderId cfg drive w = (r1, w1)"
    by (cases "getEbooksFolderId cfg drive w") auto
  note p1 = getEbooksFolderId_permissions [OF root]
  show ?thesis
  proof (cases r1)
    case (Inl e)
    then show ?thesis using assms root p1 by (simp add: getFolderId_def)
  next
    case (Inr cur)
    show ?thesis
    proof (cases "p = []")
      case True
      then show ?thesis using assms root p1 Inr by (simp add: getFolderId_def)
    next
      case False
      define sp where "sp = (if last p = CHR ''/'' then p else p @ ''/'')"
      show ?thesis
      proof (cases "first (filter (\<lambda>r. path r = sp) (gdrive_ids w1))")
        case (Some hit)
        then show ?thesis using assms root p1 Inr False unfolding getFolderId_def sp_def
          by (simp add: Let_def)
      next
        case None
        obtain r2 w2 where loop:
          "getFolderId_loop (split_py (CHR ''/'') p) drive (enumerate_py (split_py (CHR ''/'') p))
             cur False w1 = (r2, w2)"
          by (cases "getFolderId_loop (split_py (CHR ''/'') p) drive
                (enumerate_py (split_py (CHR ''/'') p)) cur False w1") auto
        note p2 = getFolderId_loop_permissions [OF loop]
        have "w' = w2 \<or> w' = commit w2"
          using assms root Inr False None loop unfolding getFolderId_def sp_def
          by (auto simp: Let_def split: sum.splits if_splits)
        then show ?thesis using p1 p2 by (auto simp: merge_commit_permissions)
      qed
    qed
  qed
qed

lemma getFileFromEbooksFolder_permissions:
  assumes "getFileFromEbooksFolder cfg drive p f w = (r, w')"
  shows "permissions_added w' = permissions_added w \<and> permission_calls w' = permission_calls w"
proof -
  define res where "res = (if truthy p then getFolderId cfg (str_of p) drive w
                           else getEbooksFolderId cfg drive w)"
  obtain r1 w1 where r1: "res = (r1, w1)" by (cases res) auto
  have p1: "permissions_added w1 = permissions_added w \<and> permission_calls w1 = permission_calls w"
    using r1 getFolderId_permissions [of cfg "str_of p" drive w r1 w1]
      getEbooksFolderId_permissions [of cfg drive w r1 w1]
    by (simp add: res_def split: if_splits)
  have unf: "getFileFromEbooksFolder cfg drive p f w =
      (case r1 of Inl e \<Rightarrow> (Inl e, w1)
       | Inr folderId \<Rightarrow> if truthy folderId then getFile (str_of folderId) f drive w1
                         else (Inr None, w1))"
    using r1 unfolding getFileFromEbooksFolder_def res_def [symmetric] by simp
  show ?thesis
  proof (cases r1)
    case (Inl e)
    then show ?thesis using assms p1 by (simp add: unf)
  next
    case (Inr folderId)
    show ?thesis
    proof (cases "truthy folderId")
      case True
      then have "getFile (str_of folderId) f drive w1 = (r, w')"
        using assms Inr by (simp add: unf)
      from getFile_permissions [OF this] p1 show ?thesis by simp
    next
      case False
      then show ?thesis using assms p1 Inr by (simp add: unf)
    qed
  qed
qed

lemma get_cover_found:
  assumes "getFileFromEbooksFolder cfg drive cp ''cover.jpg'' w = (Inr (Some df), w1)"
  shows "get_cover_via_gdrive cfg drive cp w =
     (if first (filter (\<lambda>r. perm_gdrive_id r = Some (file_id df)) (permissions_added w1)) = None
      then (case GetPermissions drive (file_id df) of
              Some e \<Rightarrow> (Inl e, w1)
            | None \<Rightarrow>
                (case InsertPermission drive (file_id df) of
                   Some e \<Rightarrow> (Inl e, w1\<lparr>permission_calls := permission_calls w1 @ [file_id df]\<rparr>)
                 | None \<Rightarrow>
                     (Inr (webContentLink df),
                      commit (add_PermissionAdded (Some (file_id df))
                        (w1\<lparr>permission_calls := permission_calls w1 @ [file_id df]\<rparr>)))))
      else (Inr (webContentLink df), w1))"
  unfolding get_cover_via_gdrive_def Let_def
  by (simp only: assms prod.case sum.case option.case)

lemma get_cover_permissions:
  assumes "get_cover_via_gdrive cfg drive cp w = (r, w')"
  shows "(permissions_added w' = permissions_added w \<and> permission_calls w' = permission_calls w) \<or>
     (\<exists>fid. (\<forall>p \<in> set (permissions_added w). perm_gdrive_id p \<noteq> Some fid) \<and>
        permission_calls w' = permission_calls w @ [fid] \<and>
        (permissions_added w' = permissions_added w \<or>
         permissions_added w' = permissions_added w @
           [\<lparr>perm_id_col = next_id (map perm_id_col (permissions_added w)),
             perm_gdrive_id = Some fid\<rparr>]))"
proof -
  obtain r1 w1 where look: "getFileFromEbooksFolder cfg drive cp ''cover.jpg'' w = (r1, w1)"
    by (cases "getFileFromEbooksFolder cfg drive cp ''cover.jpg'' w") auto
  note p1 = getFileFromEbooksFolder_permissions [OF look]
  show ?thesis
  proof (cases r1)
    case (Inl e)
    then show ?thesis using assms look p1 by (simp add: get_cover_via_gdrive_def)
  next
    case (Inr fo)
    show ?thesis
    proof (cases fo)
      case None
      then show ?thesis using assms look p1 Inr by (simp add: get_cover_via_gdrive_def)
    next
      case (Some df)
      have l: "getFileFromEbooksFolder cfg drive cp ''cover.jpg'' w = (Inr (Some df), w1)"
        using look Inr Some by simp
      show ?thesis
      proof (cases "first (filter (\<lambda>r. perm_gdrive_id r = Some (file_id df)) (permissions_added w1)) = None")
        case False
        have "get_cover_via_gdrive cfg drive cp w = (Inr (webContentLink df), w1)"
          by (simp only: get_cover_found [OF l] False if_False)
        then show ?thesis using assms p1 by simp
      next
        case True
        then have fresh: "\<forall>p \<in> set (permissions_added w). perm_gdrive_id p \<noteq> Some (file_id df)"
          using p1 unfolding first_filter_None by simp
        have "get_cover_via_gdrive cfg drive cp w =
            (case GetPermissions drive (file_id df) of
              Some e \<Rightarrow> (Inl e, w1)
            | None \<Rightarrow>
                (case InsertPermission drive (file_id df) of
                   Some e \<Rightarrow> (Inl e, w1\<lparr>permission_calls := permission_calls w1 @ [file_id df]\<rparr>)
                 | None \<Rightarrow>
                     (Inr (webContentLink df),
                      commit (add_PermissionAdded (Some (file_id df))
                        (w1\<lparr>permission_calls := permission_calls w1 @ [file_id df]\<rparr>)))))"
          by (simp only: get_cover_found [OF l] True refl if_True)
        then show ?thesis
          using assms p1 fresh
          by (auto simp: commit_def add_PermissionAdded_def split: option.splits)
      qed
    qed
  qed
qed

lemma updateDatabaseOnEdit_permissions:
  "updateDatabaseOnEdit engine_first ID p w = (r, w') \<Longrightarrow>
   permissions_added w' = permissions_added w \<and> permission_calls w' = permission_calls w"
  by (auto simp: updateDatabaseOnEdit_def Let_def commit_def split: if_splits option.splits)

lemma run_op_permissions:
  "(permissions_added (run_op cfg drive c w) = permissions_added w \<and>
    permission_calls (run_op cfg drive c w) = permission_calls w) \<or>
   (\<exists>fid. (\<forall>p \<in> set (permissions_added w). perm_gdrive_id p \<noteq> Some fid) \<and>
      permission_calls (run_op cfg drive c w) = permission_calls w @ [fid] \<and>
      (permissions_added (run_op cfg drive c w) = permissions_added w \<or>
       permissions_added (run_op cfg drive c w) = permissions_added w @
         [\<lparr>perm_id_col = next_id (map perm_id_col (permissions_added w)),
           perm_gdrive_id = Some fid\<rparr>]))"
proof (cases c)
  case (Op_getFolderId p)
  then show ?thesis
    using getFolderId_permissions [of cfg p drive w] by (simp add: prod_eq_iff)
next
  case Op_getEbooksFolderId
  then show ?thesis
    using getEbooksFolderId_permissions [of cfg drive w] by (simp add: prod_eq_iff)
next
  case (Op_getFileFromEbooksFolder p f)
  then show ?thesis
    using getFileFromEbooksFolder_permissions [of cfg drive p f w] by (simp add: prod_eq_iff)
next
  case (Op_get_cover_via_gdrive p)
  then show ?thesis
    using get_cover_permissions [of cfg drive p w "fst (get_cover_via_gdrive cfg drive p w)"
        "snd (get_cover_via_gdrive cfg drive p w)"]
    by simp
next
  case (Op_updateDatabaseOnEdit engine_first ID p)
  then show ?thesis
    using updateDatabaseOnEdit_permissions [of engine_first ID p w] by (simp add: prod_eq_iff)
next
  case (Op_deleteDatabaseEntry ID)
  then show ?thesis by (simp add: deleteDatabaseEntry_def commit_def)
next
  case Op_deleteDatabaseOnChange
  then show ?thesis by (simp add: deleteDatabaseOnChange_def commit_def)
qed

lemma run_permissions:
  "prefix (permissions_added w) (permissions_added (run calls w)) \<and>
   (distinct (map perm_gdrive_id (permissions_added w)) \<longrightarrow>
      distinct (map perm_gdrive_id (permissions_added (run calls w)))) \<and>
   ((\<exists>p \<in> set (permissions_added w). perm_gdrive_id p = Some fid) \<longrightarrow>
      filter (\<lambda>p. perm_gdrive_id p = Some fid) (permissions_added (run calls w)) =
        filter (\<lambda>p. perm_gdrive_id p = Some fid) (permissions_added w) \<and>
      filter (\<lambda>x. x = fid) (permission_calls (run calls w)) =
        filter (\<lambda>x. x = fid) (permission_calls w))"
proof (induction calls arbitrary: w)
  case Nil
  then show ?case by simp
next
  case (Cons call calls)
  obtain cfg drive c where call: "call = (cfg, drive, c)" by (cases call) auto
  define w1 where "w1 = run_op cfg drive c w"
  have run: "run (call # calls) w = run calls w1" by (simp add: call w1_def)
  note step = run_op_permissions [of cfg drive c w, folded w1_def]
  note ih = Cons.IH [of w1]
  have pre: "prefix (permissions_added w) (permissions_added w1)"
    using step by auto
  have dist: "distinct (map perm_gdrive_id (permissions_added w)) \<longrightarrow>
      distinct (map perm_gdrive_id (permissions_added w1))"
    using step by (elim disjE exE conjE) force+
  have keep: "(\<exists>p \<in> set (permissions_added w). perm_gdrive_id p = Some fid) \<longrightarrow>
      (\<exists>p \<in> set (permissions_added w1). perm_gdrive_id p = Some fid) \<and>
      filter (\<lambda>p. perm_gdrive_id p = Some fid) (permissions_added w1) =
        filter (\<lambda>p. perm_gdrive_id p = Some fid) (permissions_added w) \<and>
      filter (\<lambda>x. x = fid) (permission_calls w1) = filter (\<lambda>x. x = fid) (permission_calls w)"
    using step by auto
  show ?case
    unfolding run using ih pre dist keep by (auto intro: prefix_order.trans)
qed

text \<open>
  Claim C9. A request whose cover file \<open>df\<close> has no row in \<open>permissions_added\<close>, and
  whose two permission calls return, calls \<open>InsertPermission\<close> once, appends exactly one
  row for the id of \<open>df\<close> and commits it. A request whose cover file has a row makes no
  permission call and leaves the table as it is. Over any run of calls of the module from
  a session \<open>v\<close>: the rows of \<open>v\<close> stay in place, unchanged; for an id that has a row in
  \<open>v\<close> no further row is added and no further \<open>InsertPermission\<close> call is made; and a
  table with at most one row per id keeps at most one row per id.
\<close>

theorem public_permission_granted_once:
  "(getFileFromEbooksFolder cfg drive cover_path ''cover.jpg'' w = (Inr (Some df), w1) \<and>
    (\<forall>p \<in> set (permissions_added w). perm_gdrive_id p \<noteq> Some (file_id df)) \<and>
    GetPermissions drive (file_id df) = None \<and> InsertPermission drive (file_id df) = None \<longrightarrow>
      (\<exists>w2. get_cover_via_gdrive cfg drive cover_path w = (Inr (webContentLink df), w2) \<and>
         permissions_added w2 = permissions_added w @
           [\<lparr>perm_id_col = next_id (map perm_id_col (permissions_added w)),
             perm_gdrive_id = Some (file_id df)\<rparr>] \<and>
         committed_permissions_added w2 = permissions_added w2 \<and>
         permission_calls w2 = permission_calls w @ [file_id df])) \<and>
   (getFileFromEbooksFolder cfg drive cover_path ''cover.jpg'' w = (Inr (Some df), w1) \<and>
    (\<exists>p \<in> set (permissions_added w). perm_gdrive_id p = Some (file_id df)) \<longrightarrow>
      get_cover_via_gdrive cfg drive cover_path w = (Inr (webContentLink df), w1) \<and>
      permissions_added w1 = permissions_added w \<and>
      permission_calls w1 = permission_calls w) \<and>
   ((\<exists>p \<in> set (permissions_added v). perm_gdrive_id p = Some fid) \<longrightarrow>
      prefix (permissions_added v) (permissions_added (run calls v)) \<and>
      filter (\<lambda>p. perm_gdrive_id p = Some fid) (permissions_added (run calls v)) =
        filter (\<lambda>p. perm_gdrive_id p = Some fid) (permissions_added v) \<and>
      filter (\<lambda>x. x = fid) (permission_calls (run calls v)) =
        filter (\<lambda>x. x = fid) (permission_calls v)) \<and>
   (distinct (map perm_gdrive_id (permissions_added v)) \<longrightarrow>
      distinct (map perm_gdrive_id (permissions_added (run calls v))))"
proof -
  have first_request:
    "getFileFromEbooksFolder cfg drive cover_path ''cover.jpg'' w = (Inr (Some df), w1) \<and>
    (\<forall>p \<in> set (permissions_added w). perm_gdrive_id p \<noteq> Some (file_id df)) \<and>
    GetPermissions drive (file_id df) = None \<and> InsertPermission drive (file_id df) = None \<longrightarrow>
      (\<exists>w2. get_cover_via_gdrive cfg drive cover_path w = (Inr (webContentLink df), w2) \<and>
         permissions_added w2 = permissions_added w @
           [\<lparr>perm_id_col = next_id (map perm_id_col (permissions_added w)),
             perm_gdrive_id = Some (file_id df)\<rparr>] \<and>
         committed_permissions_added w2 = permissions_added w2 \<and>
         permission_calls w2 = permission_calls w @ [file_id df])"
  proof
  assume h: "getFileFromEbooksFolder cfg drive cover_path ''cover.jpg'' w = (Inr (Some df), w1) \<and>
    (\<forall>p \<in> set (permissions_added w). perm_gdrive_id p \<noteq> Some (file_id df)) \<and>
    GetPermissions drive (file_id df) = None \<and> InsertPermission drive (file_id df) = None"
  then have l: "getFileFromEbooksFolder cfg drive cover_path ''cover.jpg'' w = (Inr (Some df), w1)"
    by simp
  note p1 = getFileFromEbooksFolder_permissions [OF l]
  have none: "first (filter (\<lambda>r. perm_gdrive_id r = Some (file_id df)) (permissions_added w1)) = None"
    using h p1 unfolding first_filter_None by simp
  have "get_cover_via_gdrive cfg drive cover_path w =
      (Inr (webContentLink df),
       commit (add_PermissionAdded (Some (file_id df))
         (w1\<lparr>permission_calls := permission_calls w1 @ [file_id df]\<rparr>)))"
    using h by (simp only: get_cover_found [OF l] none refl if_True option.case)
  then show "\<exists>w2. get_cover_via_gdrive cfg drive cover_path w = (Inr (webContentLink df), w2) \<and>
         permissions_added w2 = permissions_added w @
           [\<lparr>perm_id_col = next_id (map perm_id_col (permissions_added w)),
             perm_gdrive_id = Some (file_id df)\<rparr>] \<and>
         committed_permissions_added w2 = permissions_added w2 \<and>
         permission_calls w2 = permission_calls w @ [file_id df]"
    using p1 by (simp add: commit_def add_PermissionAdded_def)
  qed
  have later_request:
    "getFileFromEbooksFolder cfg drive cover_path ''cover.jpg'' w = (Inr (Some df), w1) \<and>
    (\<exists>p \<in> set (permissions_added w). perm_gdrive_id p = Some (file_id df)) \<longrightarrow>
      get_cover_via_gdrive cfg drive cover_path w = (Inr (webContentLink df), w1) \<and>
      permissions_added w1 = permissions_added w \<and>
      permission_calls w1 = permission_calls w"
  proof
  assume h: "getFileFromEbooksFolder cfg drive cover_path ''cover.jpg'' w = (Inr (Some df), w1) \<and>
    (\<exists>p \<in> set (permissions_added w). perm_gdrive_id p = Some (file_id df))"
  then have l: "getFileFromEbooksFolder cfg drive cover_path ''cover.jpg'' w = (Inr (Some df), w1)"
    by simp
  note p1 = getFileFromEbooksFolder_permissions [OF l]
  have some: "first (filter (\<lambda>r. perm_gdrive_id r = Some (file_id df)) (permissions_added w1)) \<noteq> None"
    using h p1 unfolding first_filter_None by simp
  have "get_cover_via_gdrive cfg drive cover_path w = (Inr (webContentLink df), w1)"
    by (simp only: get_cover_found [OF l] some if_False)
  then show "get_cover_via_gdrive cfg drive cover_path w = (Inr (webContentLink df), w1) \<and>
      permissions_added w1 = permissions_added w \<and> permission_calls w1 = permission_calls w"
    using p1 by simp
  qed
  have kept: "(\<exists>p \<in> set (permissions_added v). perm_gdrive_id p = Some fid) \<longrightarrow>
      prefix (permissions_added v) (permissions_added (run calls v)) \<and>
      filter (\<lambda>p. perm_gdrive_id p = Some fid) (permissions_added (run calls v)) =
        filter (\<lambda>p. perm_gdrive_id p = Some fid) (permissions_added v) \<and>
      filter (\<lambda>x. x = fid) (permission_calls (run calls v)) =
        filter (\<lambda>x. x = fid) (permission_calls v)"
    using run_permissions [of v calls fid] by blast
  have one_row: "distinct (map perm_gdrive_id (permissions_added v)) \<longrightarrow>
      distinct (map perm_gdrive_id (permissions_added (run calls v)))"
    using run_permissions [of v calls fid] by blast
  show ?thesis
    by (intro conjI first_request later_request kept one_row)
qed

lemma cover_lookup:
  "fst (getFileFromEbooksFolder ''Books'' cover_drive (Some ''Author1/'') ''cover.jpg'' books_author1_world)
     = Inr (Some cover_file) \<and>
   snd (getFileFromEbooksFolder ''Books'' cover_drive (Some ''Author1/'') ''cover.jpg'' books_author1_world)
     = books_author1_world\<lparr>list_queries := [file_query ''idAuthor1'' ''cover.jpg'']\<rparr>"
  by code_simp

lemma cover_first_request:
  "fst (get_cover_via_gdrive ''Books'' cover_drive (Some ''Author1/'') books_author1_world)
     = Inr (Some ''https://drive.example/cover'') \<and>
   snd (get_cover_via_gdrive ''Books'' cover_drive (Some ''Author1/'') books_author1_world)
     = cover_granted_world"
  by code_simp

lemma cover_calls_run:
  "permission_calls (run cover_calls cover_granted_world) = [''idCover''] \<and>
   permissions_added (run cover_calls cover_granted_world) =
     [\<lparr>perm_id_col = 1, perm_gdrive_id = Some ''idCover''\<rparr>] \<and>
   length (list_queries (run cover_calls cover_granted_world)) = 4"
  by code_simp


theorem public_permission_granted_once_witness:
  "(\<exists>w2. get_cover_via_gdrive ''Books'' cover_drive (Some ''Author1/'') books_author1_world
           = (Inr (webContentLink cover_file), w2) \<and>
         permissions_added w2 = permissions_added books_author1_world @
           [\<lparr>perm_id_col = next_id (map perm_id_col (permissions_added books_author1_world)),
             perm_gdrive_id = Some (file_id cover_file)\<rparr>] \<and>
         committed_permissions_added w2 = permissions_added w2 \<and>
         permission_calls w2 = permission_calls books_author1_world @ [file_id cover_file]) \<and>
   snd (get_cover_via_gdrive ''Books'' cover_drive (Some ''Author1/'') books_author1_world)
     = cover_granted_world \<and>
   prefix (permissions_added cover_granted_world)
     (permissions_added (run cover_calls cover_granted_world)) \<and>
   filter (\<lambda>p. perm_gdrive_id p = Some ''idCover'')
       (permissions_added (run cover_calls cover_granted_world)) =
     filter (\<lambda>p. perm_gdrive_id p = Some ''idCover'') (permissions_added cover_granted_world) \<and>
   filter (\<lambda>x. x = ''idCover'') (permission_calls (run cover_calls cover_granted_world)) =
     filter (\<lambda>x. x = ''idCover'') (permission_calls cover_granted_world) \<and>
   permission_calls (run cover_calls cover_granted_world) = [''idCover'']"
proof -
  let ?w1 = "books_author1_world\<lparr>list_queries := [file_query ''idAuthor1'' ''cover.jpg'']\<rparr>"
  have look: "getFileFromEbooksFolder ''Books'' cover_drive (Some ''Author1/'') ''cover.jpg''
      books_author1_world = (Inr (Some cover_file), ?w1)"
    using cover_lookup by (simp add: prod_eq_iff)
  have fresh: "\<forall>p \<in> set (permissions_added books_author1_world).
      perm_gdrive_id p \<noteq> Some (file_id cover_file)"
    by (simp add: books_author1_world_def empty_world_def)
  have ok: "GetPermissions cover_drive (file_id cover_file) = None"
    "InsertPermission cover_drive (file_id cover_file) = None"
    by (simp_all add: cover_drive_def)
  have row: "\<exists>p \<in> set (permissions_added cover_granted_world). perm_gdrive_id p = Some ''idCover''"
    by (simp add: cover_granted_world_def)
  note t = public_permission_granted_once [of "''Books''" cover_drive "Some ''Author1/''"
      books_author1_world cover_file ?w1 cover_granted_world "''idCover''" cover_calls]
  have a: "\<exists>w2. get_cover_via_gdrive ''Books'' cover_drive (Some ''Author1/'') books_author1_world
           = (Inr (webContentLink cover_file), w2) \<and>
         permissions_added w2 = permissions_added books_author1_world @
           [\<lparr>perm_id_col = next_id (map perm_id_col (permissions_added books_author1_world)),
             perm_gdrive_id = Some (file_id cover_file)\<rparr>] \<and>
         committed_permissions_added w2 = permissions_added w2 \<and>
         permission_calls w2 = permission_calls books_author1_world @ [file_id cover_file]"
    using t look fresh ok by blast
  have b: "prefix (permissions_added cover_granted_world)
     (permissions_added (run cover_calls cover_granted_world)) \<and>
   filter (\<lambda>p. perm_gdrive_id p = Some ''idCover'')
       (permissions_added (run cover_calls cover_granted_world)) =
     filter (\<lambda>p. perm_gdrive_id p = Some ''idCover'') (permissions_added cover_granted_world) \<and>
   filter (\<lambda>x. x = ''idCover'') (permission_calls (run cover_calls cover_granted_world)) =
     filter (\<lambda>x. x = ''idCover'') (permission_calls cover_granted_world)"
    using t row by blast
  show ?thesis
    by (intro conjI a b [THEN conjunct1] b [THEN conjunct2, THEN conjunct1]
        b [THEN conjunct2, THEN conjunct2] cover_first_request [THEN conjunct2]
        cover_calls_run [THEN conjunct1])
qed

end
